theory Spec2Isabelle
  imports Complex_Main "HOL-Library.Log_Nat"
begin

section \<open>JavaScript values\<close>

text \<open>
  The engine is TypeScript running on a JavaScript host; every value it reads comes out of
  \<^verbatim>\<open>JSON.parse\<close> and is inspected with \<^verbatim>\<open>typeof\<close> at run time, so the model keeps
  the values dynamically typed.

  A JavaScript number is NaN, one of the two infinities, or a finite binary64 value,
  modelled by the real number it denotes. Every arithmetic result is rounded to binary64
  by \<open>rnd\<close>: to the nearest value, a tie to the even mantissa, with gradual underflow, and
  to an infinity once the rounded magnitude reaches \<open>2 ^ 1024\<close>. Negative zero is
  identified with zero (no operation of the engine tells them apart; a quotient by zero
  takes the sign of the dividend).
\<close>

datatype number = NaN | PInf | NInf | Fin real

subsection \<open>Rounding to binary64\<close>

text \<open>The nearest integer, a tie going to the even one.\<close>

definition rhe :: "real \<Rightarrow> int" where
  "rhe y =
     (let f = \<lfloor>y\<rfloor>; r = y - of_int f
      in if r < 1 / 2 then f else if 1 / 2 < r then f + 1 else if even f then f else f + 1)"

text \<open>
  Every binary64 value is a multiple of \<open>2 ^ -1074\<close>. For a magnitude \<open>y\<close> counted in
  that unit, the values near it are \<open>2 ^ ulp_exponent y\<close> apart: 1 below \<open>2 ^ 53\<close>
  (the subnormal values and the first binade), and twice as much in each binade after
  it, so that the mantissa \<open>y / 2 ^ ulp_exponent y\<close> stays below \<open>2 ^ 53\<close>.
\<close>

definition ulp_exponent :: "real \<Rightarrow> nat" where
  "ulp_exponent y = nat (bitlen \<lfloor>y\<rfloor> - 53)"

definition round_scaled :: "real \<Rightarrow> real" where
  "round_scaled y = of_int (rhe (y / 2 ^ ulp_exponent y)) * 2 ^ ulp_exponent y"

definition subnormal_scale :: real where
  "subnormal_scale = 2 ^ 1074"

text \<open>The binary64 value nearest to a real, were the exponent unbounded above.\<close>

definition d64 :: "real \<Rightarrow> real" where
  "d64 x = sgn x * round_scaled (\<bar>x\<bar> * subnormal_scale) / subnormal_scale"

definition binary64_limit :: real where
  "binary64_limit = 2 ^ 1024"

definition rnd :: "real \<Rightarrow> number" where
  "rnd x = (if binary64_limit \<le> d64 x then PInf
            else if d64 x \<le> - binary64_limit then NInf
            else Fin (d64 x))"

subsection \<open>Arithmetic\<close>

fun num_neg :: "number \<Rightarrow> number" where
  "num_neg NaN = NaN"
| "num_neg PInf = NInf"
| "num_neg NInf = PInf"
| "num_neg (Fin x) = Fin (- x)"

text \<open>The sign of an infinite product or quotient, given the finite operand.\<close>

definition signed_inf :: "bool \<Rightarrow> number" where
  "signed_inf positive = (if positive then PInf else NInf)"

fun num_mul :: "number \<Rightarrow> number \<Rightarrow> number" where
  "num_mul NaN _ = NaN"
| "num_mul _ NaN = NaN"
| "num_mul (Fin x) (Fin y) = rnd (x * y)"
| "num_mul (Fin x) PInf = (if x = 0 then NaN else signed_inf (0 < x))"
| "num_mul (Fin x) NInf = (if x = 0 then NaN else signed_inf (x < 0))"
| "num_mul PInf (Fin y) = (if y = 0 then NaN else signed_inf (0 < y))"
| "num_mul NInf (Fin y) = (if y = 0 then NaN else signed_inf (y < 0))"
| "num_mul PInf PInf = PInf"
| "num_mul NInf NInf = PInf"
| "num_mul PInf NInf = NInf"
| "num_mul NInf PInf = NInf"

fun num_add :: "number \<Rightarrow> number \<Rightarrow> number" where
  "num_add NaN _ = NaN"
| "num_add _ NaN = NaN"
| "num_add (Fin x) (Fin y) = rnd (x + y)"
| "num_add PInf NInf = NaN"
| "num_add NInf PInf = NaN"
| "num_add PInf _ = PInf"
| "num_add NInf _ = NInf"
| "num_add _ PInf = PInf"
| "num_add _ NInf = NInf"

definition num_sub :: "number \<Rightarrow> number \<Rightarrow> number" where
  "num_sub a b = num_add a (num_neg b)"

fun num_div :: "number \<Rightarrow> number \<Rightarrow> number" where
  "num_div NaN _ = NaN"
| "num_div _ NaN = NaN"
| "num_div (Fin x) (Fin y) =
     (if y = 0 then (if x = 0 then NaN else signed_inf (0 < x)) else rnd (x / y))"
| "num_div (Fin x) PInf = Fin 0"
| "num_div (Fin x) NInf = Fin 0"
| "num_div PInf (Fin y) = signed_inf (0 \<le> y)"
| "num_div NInf (Fin y) = signed_inf (y < 0)"
| "num_div PInf PInf = NaN"
| "num_div PInf NInf = NaN"
| "num_div NInf PInf = NaN"
| "num_div NInf NInf = NaN"

text \<open>Comparisons: any comparison with NaN is false.\<close>

fun num_lt :: "number \<Rightarrow> number \<Rightarrow> bool" where
  "num_lt NaN _ = False"
| "num_lt _ NaN = False"
| "num_lt (Fin x) (Fin y) = (x < y)"
| "num_lt NInf NInf = False"
| "num_lt NInf _ = True"
| "num_lt PInf _ = False"
| "num_lt (Fin x) PInf = True"
| "num_lt (Fin x) NInf = False"

fun num_le :: "number \<Rightarrow> number \<Rightarrow> bool" where
  "num_le NaN _ = False"
| "num_le _ NaN = False"
| "num_le a b = (a = b \<or> num_lt a b)"

definition num_gt :: "number \<Rightarrow> number \<Rightarrow> bool" where
  "num_gt a b = num_lt b a"

text \<open>\<^verbatim>\<open>Math.max\<close>, \<^verbatim>\<open>Math.min\<close> and \<^verbatim>\<open>Math.floor\<close>: NaN is contagious.\<close>

fun Math_max :: "number \<Rightarrow> number \<Rightarrow> number" where
  "Math_max NaN _ = NaN"
| "Math_max _ NaN = NaN"
| "Math_max a b = (if num_lt a b then b else a)"

fun Math_min :: "number \<Rightarrow> number \<Rightarrow> number" where
  "Math_min NaN _ = NaN"
| "Math_min _ NaN = NaN"
| "Math_min a b = (if num_lt b a then b else a)"

fun Math_floor :: "number \<Rightarrow> number" where
  "Math_floor (Fin x) = Fin (of_int \<lfloor>x\<rfloor>)"
| "Math_floor a = a"

definition Number_isNaN :: "number \<Rightarrow> bool" where
  "Number_isNaN a = (a = NaN)"

subsection \<open>Dates\<close>

text \<open>
  A \<^verbatim>\<open>Date\<close> holds a time value: an integral number of milliseconds since the epoch,
  or NaN (an invalid date). \<^verbatim>\<open>new Date(x)\<close> for a number \<open>x\<close> clips it: a
  non-finite value or one beyond 8.64e15 in magnitude gives the invalid date, any other
  value is truncated towards zero. \<open>instant_of\<close> is that clipping on a real number.
\<close>

datatype Date = InvalidDate | TimeValue int

fun getTime :: "Date \<Rightarrow> number" where
  "getTime InvalidDate = NaN"
| "getTime (TimeValue t) = Fin (of_int t)"

definition trunc_toward_zero :: "real \<Rightarrow> int" where
  "trunc_toward_zero x = (if 0 \<le> x then \<lfloor>x\<rfloor> else \<lceil>x\<rceil>)"

definition instant_of :: "real \<Rightarrow> Date" where
  "instant_of x =
     (if \<bar>x\<bar> \<le> 8640000000000000 then TimeValue (trunc_toward_zero x) else InvalidDate)"

fun new_Date :: "number \<Rightarrow> Date" where
  "new_Date (Fin x) = instant_of x"
| "new_Date _ = InvalidDate"

text \<open>Relational operators on two dates compare their time values as numbers.\<close>

definition date_lt :: "Date \<Rightarrow> Date \<Rightarrow> bool" where
  "date_lt a b = num_lt (getTime a) (getTime b)"

definition date_gt :: "Date \<Rightarrow> Date \<Rightarrow> bool" where
  "date_gt a b = num_gt (getTime a) (getTime b)"

subsection \<open>Parsed JSON\<close>

text \<open>
  The result of \<^verbatim>\<open>JSON.parse\<close>, together with \<^verbatim>\<open>undefined\<close>, which reading a missing
  property yields. An object is the list of its properties, each key once. A number is
  kept as the real the text wrote; \<open>double_of\<close> is the binary64 value \<^verbatim>\<open>JSON.parse\<close>
  made of it, and that is what the program reads.
\<close>

datatype jsval =
    Undefined
  | Null
  | Bool bool
  | Num number
  | Str string
  | Arr "jsval list"
  | Obj "(string \<times> jsval) list"

text \<open>
  Reading a property of \<^verbatim>\<open>null\<close> or \<^verbatim>\<open>undefined\<close> throws a TypeError; the functions
  below test \<open>nullish\<close> where the source's first property read would throw. On any other
  value a property that is not there reads as \<^verbatim>\<open>undefined\<close> (none of the names the
  engine reads is a built-in property of a string, an array, a number or a boolean).
\<close>

definition nullish :: "jsval \<Rightarrow> bool" where
  "nullish v = (v = Undefined \<or> v = Null)"

fun get_prop :: "jsval \<Rightarrow> string \<Rightarrow> jsval" where
  "get_prop (Obj kvs) k = (case map_of kvs k of Some v \<Rightarrow> v | None \<Rightarrow> Undefined)"
| "get_prop _ k = Undefined"

fun double_of :: "number \<Rightarrow> number" where
  "double_of (Fin x) = rnd x"
| "double_of a = a"


text \<open>\<^verbatim>\<open>typeof v === 'number' && !Number.isNaN(v)\<close>, the test of lines 20 and 22.\<close>

fun is_number_not_NaN :: "jsval \<Rightarrow> bool" where
  "is_number_not_NaN (Num a) = (\<not> Number_isNaN (double_of a))"
| "is_number_not_NaN _ = False"

text \<open>The number a value holds where \<^verbatim>\<open>typeof\<close> has said it is one.\<close>

fun the_number :: "jsval \<Rightarrow> number" where
  "the_number (Num a) = double_of a"
| "the_number _ = NaN"

text \<open>The one kind of error the engine's own code can throw.\<close>

datatype js_error = TypeError

section \<open>The rate-limit normalizer\<close>

subsection \<open>calculateResetTime\<close>

record reset =
  resetTime :: Date
  isOutdated :: bool
  secondsUntilReset :: number

text \<open>
  Lines 18 to 24: the local \<^verbatim>\<open>resetTime\<close>, a date or \<^verbatim>\<open>null\<close>, after the two branches
  on \<^verbatim>\<open>resets_at\<close> and \<^verbatim>\<open>resets_in_seconds\<close>.
\<close>

definition resolved_resetTime :: "Date \<Rightarrow> jsval \<Rightarrow> Date option" where
  "resolved_resetTime recordTimestamp rateLimit =
     (if is_number_not_NaN (get_prop rateLimit ''resets_at'') then
        Some (new_Date (num_mul (the_number (get_prop rateLimit ''resets_at'')) (Fin 1000)))
      else if is_number_not_NaN (get_prop rateLimit ''resets_in_seconds'') then
        Some (new_Date (num_add (getTime recordTimestamp)
                (num_mul (the_number (get_prop rateLimit ''resets_in_seconds'')) (Fin 1000))))
      else None)"

definition unresolved_reset :: "Date \<Rightarrow> reset" where
  "unresolved_reset recordTimestamp =
     \<lparr>resetTime = recordTimestamp, isOutdated = True, secondsUntilReset = Fin 0\<rparr>"

text \<open>
  Lines 34 to 37, where \<open>currentTime\<close> is the reading of the clock taken at line 17
  (\<^verbatim>\<open>new Date()\<close>).
\<close>

definition resolved_reset :: "Date \<Rightarrow> Date \<Rightarrow> reset" where
  "resolved_reset currentTime rt =
     \<lparr>resetTime = rt,
      isOutdated = date_lt rt currentTime,
      secondsUntilReset =
        Math_max (Fin 0)
          (Math_floor (num_div (num_sub (getTime rt) (getTime currentTime)) (Fin 1000)))\<rparr>"

definition calculateResetTime :: "Date \<Rightarrow> Date \<Rightarrow> jsval \<Rightarrow> js_error + reset" where
  "calculateResetTime currentTime recordTimestamp rateLimit =
     (if nullish rateLimit then Inl TypeError
      else case resolved_resetTime recordTimestamp rateLimit of
        None \<Rightarrow> Inr (unresolved_reset recordTimestamp)
      | Some rt \<Rightarrow>
          if Number_isNaN (getTime rt) then Inr (unresolved_reset recordTimestamp)
          else Inr (resolved_reset currentTime rt))"

subsection \<open>One window of getRateLimitData\<close>

record window =
  used_percent :: jsval
  time_percent :: number
  reset_time :: Date
  outdated :: bool
  window_minutes :: number

text \<open>
  Lines 226 and 254: the validated window length,
  \<^verbatim>\<open>typeof raw === 'number' && raw > 0 ? raw : 0\<close>.
\<close>

fun is_positive_number :: "jsval \<Rightarrow> bool" where
  "is_positive_number (Num a) = num_gt (double_of a) (Fin 0)"
| "is_positive_number _ = False"

definition windowMinutes_of :: "jsval \<Rightarrow> number" where
  "windowMinutes_of rawWindowMinutes =
     (if is_positive_number rawWindowMinutes then the_number rawWindowMinutes else Fin 0)"

text \<open>Lines 229 to 238 (and 257 to 266).\<close>

definition timePercent_of :: "number \<Rightarrow> bool \<Rightarrow> number \<Rightarrow> number" where
  "timePercent_of windowSeconds isOutdated' secondsUntilReset' =
     (if num_le windowSeconds (Fin 0) then Fin 0
      else if isOutdated' then Fin 100
      else
        let elapsedSeconds = num_sub windowSeconds secondsUntilReset';
            boundedElapsedSeconds = Math_max (Fin 0) (Math_min windowSeconds elapsedSeconds)
        in num_mul (num_div boundedElapsedSeconds windowSeconds) (Fin 100))"

text \<open>
  The body of \<^verbatim>\<open>if (rateLimits.primary) { ... }\<close>, lines 223 to 246; the source repeats it
  word for word for the secondary window, lines 251 to 274.
\<close>

definition processWindow :: "Date \<Rightarrow> Date \<Rightarrow> jsval \<Rightarrow> js_error + window" where
  "processWindow currentTime recordTimestamp rateLimit =
     (case calculateResetTime currentTime recordTimestamp rateLimit of
        Inl e \<Rightarrow> Inl e
      | Inr r \<Rightarrow>
          let windowMinutes = windowMinutes_of (get_prop rateLimit ''window_minutes'');
              windowSeconds = num_mul windowMinutes (Fin 60);
              timePercent = timePercent_of windowSeconds (isOutdated r) (secondsUntilReset r)
          in Inr \<lparr>used_percent = get_prop rateLimit ''used_percent'',
                    time_percent = Math_max (Fin 0) (Math_min (Fin 100) timePercent),
                    reset_time = resetTime r,
                    outdated = isOutdated r,
                    window_minutes = windowMinutes\<rparr>)"

section \<open>The host\<close>

text \<open>
  What the engine asks of its platform is taken as a parameter: the file system
  (\<^verbatim>\<open>fs.existsSync\<close>, \<^verbatim>\<open>glob\<close>, \<^verbatim>\<open>fs.promises.stat\<close>, \<^verbatim>\<open>fs.promises.readFile\<close>),
  the path functions, \<^verbatim>\<open>JSON.parse\<close>, the date parser behind \<^verbatim>\<open>new Date(string)\<close>,
  the one setting read from the editor's configuration, and the message text of a thrown
  error. A call that can throw or reject returns \<open>None\<close> when it does. The file system
  is the same throughout one query.

  Calls of \<^verbatim>\<open>log\<close> write to an output channel and change no returned value; they are
  left out.
\<close>

record host =
  homedir :: string
  path_resolve :: "string \<Rightarrow> string"
  path_join :: "string list \<Rightarrow> string"
  existsSync :: "string \<Rightarrow> bool"
  glob :: "string \<Rightarrow> string list option"
  stat_mtimeMs :: "string \<Rightarrow> real option"
  readFile :: "string \<Rightarrow> string option"
  JSON_parse :: "string \<Rightarrow> jsval option"
  Date_parse :: "string \<Rightarrow> Date"
  config_sessionPath :: string
  error_message :: "js_error \<Rightarrow> string"



subsection \<open>Strings\<close>

text \<open>
  A string is a list of 8-bit code units. \<^verbatim>\<open>s.replace(c, r)\<close> with a one-character
  pattern replaces its first occurrence (the replacement is taken literally).
\<close>

fun replace_first :: "char \<Rightarrow> string \<Rightarrow> string \<Rightarrow> string" where
  "replace_first c r [] = []"
| "replace_first c r (x # xs) = (if x = c then r @ xs else x # replace_first c r xs)"

text \<open>\<^verbatim>\<open>content.split('\n')\<close>.\<close>

fun split_newline :: "string \<Rightarrow> string list" where
  "split_newline [] = [] # []"
| "split_newline (c # cs) =
     (if c = CHR 0x0A then [] # split_newline cs
      else case split_newline cs of
             l # ls \<Rightarrow> (c # l) # ls
           | [] \<Rightarrow> [c] # [])"

text \<open>
  \<^verbatim>\<open>line.trim()\<close> is a non-empty string, hence truthy, exactly when the line has a
  character that is not white space (tab, line feed, vertical tab, form feed, carriage
  return, space, no-break space).
\<close>

definition is_whitespace :: "char \<Rightarrow> bool" where
  "is_whitespace c =
     (c \<in> {CHR 0x09, CHR 0x0A, CHR 0x0B, CHR 0x0C, CHR 0x0D, CHR 0x20, CHR 0xA0})"

definition trim_truthy :: "string \<Rightarrow> bool" where
  "trim_truthy line = (\<exists>c \<in> set line. \<not> is_whitespace c)"




section \<open>The log record reader\<close>

text \<open>\<^verbatim>\<open>record.payload?.type\<close>: the optional chain stops at a nullish payload.\<close>

definition payload_type :: "jsval \<Rightarrow> jsval" where
  "payload_type record =
     (if nullish (get_prop record ''payload'') then Undefined
      else get_prop (get_prop record ''payload'') ''type'')"

text \<open>
  Lines 53 and 54. A record that is \<^verbatim>\<open>null\<close> makes \<^verbatim>\<open>record.type\<close> throw; the
  \<^verbatim>\<open>catch\<close> of line 63 then skips the line, as it does for one that is not a
  token-count event.
\<close>

definition is_token_count :: "jsval \<Rightarrow> bool" where
  "is_token_count record =
     (\<not> nullish record \<and> get_prop record ''type'' = Str ''event_msg''
      \<and> payload_type record = Str ''token_count'')"

text \<open>
  Line 56: \<^verbatim>\<open>new Date(record.timestamp.replace('Z', '+00:00'))\<close>. Only a string has a
  \<^verbatim>\<open>replace\<close> method: any other timestamp, or none, throws a TypeError.
\<close>

definition record_timestamp_of :: "host \<Rightarrow> jsval \<Rightarrow> js_error + Date" where
  "record_timestamp_of h record =
     (case get_prop record ''timestamp'' of
        Str s \<Rightarrow> Inr (Date_parse h (replace_first (CHR ''Z'') ''+00:00'' s))
      | _ \<Rightarrow> Inl TypeError)"

text \<open>
  The state of the loop of lines 48 to 67 is the pair \<^verbatim>\<open>latestRecord\<close>,
  \<^verbatim>\<open>latestTimestamp\<close>: both \<^verbatim>\<open>null\<close>, or both set. One turn of the loop:
\<close>

type_synonym latest = "(jsval \<times> Date) option"

definition scan_line :: "host \<Rightarrow> latest \<Rightarrow> string \<Rightarrow> latest" where
  "scan_line h latest line =
     (case JSON_parse h line of
        None \<Rightarrow> latest
      | Some record \<Rightarrow>
          if is_token_count record then
            (case record_timestamp_of h record of
               Inl e \<Rightarrow> latest
             | Inr timestamp \<Rightarrow>
                 (case latest of
                    None \<Rightarrow> Some (record, timestamp)
                  | Some (latestRecord, latestTimestamp) \<Rightarrow>
                      if date_gt timestamp latestTimestamp then Some (record, timestamp)
                      else latest))
          else latest)"

fun scan_lines :: "host \<Rightarrow> latest \<Rightarrow> string list \<Rightarrow> latest" where
  "scan_lines h latest [] = latest"
| "scan_lines h latest (line # lines) = scan_lines h (scan_line h latest line) lines"

text \<open>
  \<open>parseSessionFile\<close> returns \<^verbatim>\<open>latestRecord\<close>, or \<^verbatim>\<open>null\<close> when the file cannot be
  read (line 70).
\<close>

definition file_lines :: "string \<Rightarrow> string list" where
  "file_lines content = filter trim_truthy (split_newline content)"

definition parseSessionFile :: "host \<Rightarrow> string \<Rightarrow> jsval option" where
  "parseSessionFile h filePath =
     (case readFile h filePath of
        None \<Rightarrow> None
      | Some content \<Rightarrow> map_option fst (scan_lines h None (file_lines content)))"


subsection \<open>What the reader is to return\<close>

text \<open>
  The record and timestamp a line enters into the comparison of line 58 with, if any: the
  line parses, is a token-count event, and its timestamp is a string.
\<close>

definition candidate :: "host \<Rightarrow> string \<Rightarrow> (jsval \<times> Date) option" where
  "candidate h line =
     (case JSON_parse h line of
        None \<Rightarrow> None
      | Some record \<Rightarrow>
          if is_token_count record then
            (case record_timestamp_of h record of
               Inl e \<Rightarrow> None
             | Inr timestamp \<Rightarrow> Some (record, timestamp))
          else None)"

definition candidates :: "host \<Rightarrow> string \<Rightarrow> (jsval \<times> Date) list" where
  "candidates h content = List.map_filter (candidate h) (file_lines content)"

text \<open>Lines 58 to 61, on the loop state.\<close>

definition newer :: "latest \<Rightarrow> jsval \<times> Date \<Rightarrow> latest" where
  "newer latest c =
     (case latest of
        None \<Rightarrow> Some c
      | Some (latestRecord, latestTimestamp) \<Rightarrow>
          if date_gt (snd c) latestTimestamp then Some c else latest)"

text \<open>
  Spec: \<open>c\<close> is the most recent of the candidates \<open>cs\<close>, and the earliest in the file of
  those that share its timestamp: every candidate before it is strictly older, none after
  it is newer.
\<close>

definition first_latest :: "(jsval \<times> Date) list \<Rightarrow> jsval \<times> Date \<Rightarrow> bool" where
  "first_latest cs c =
     (\<exists>before after. cs = before @ c # after
        \<and> (\<forall>p \<in> set before. date_lt (snd p) (snd c))
        \<and> (\<forall>q \<in> set after. \<not> date_gt (snd q) (snd c)))"


section \<open>The session directory locator\<close>









section \<open>The freshest-record resolver\<close>






subsection \<open>What the resolver is to return\<close>






section \<open>The query\<close>










section \<open>Example logs\<close>

text \<open>
  Log lines. The first three are token-count events: one carries a timestamp that is not
  a date, the other two the same valid timestamp. Then an older token-count event, and a
  line that is no token-count event.
\<close>

definition line_bad_timestamp :: string where
  \<open>line_bad_timestamp =
     ''{"type":"event_msg","timestamp":"?","payload":{"type":"token_count","n":0}}''\<close>

definition line_first :: string where
  \<open>line_first =
     ''{"type":"event_msg","timestamp":"2025-01-01T00:00:00Z","payload":{"type":"token_count","n":1}}''\<close>

definition line_second :: string where
  \<open>line_second =
     ''{"type":"event_msg","timestamp":"2025-01-01T00:00:00Z","payload":{"type":"token_count","n":2}}''\<close>

definition line_older :: string where
  \<open>line_older =
     ''{"type":"event_msg","timestamp":"2024-12-31T00:00:00Z","payload":{"type":"token_count","n":3}}''\<close>

definition line_session_meta :: string where
  \<open>line_session_meta = ''{"type":"session_meta"}''\<close>

definition record_bad_timestamp :: jsval where
  "record_bad_timestamp =
     Obj [(''type'', Str ''event_msg''), (''timestamp'', Str ''?''),
          (''payload'', Obj [(''type'', Str ''token_count''), (''n'', Num (Fin 0))])]"

definition record_first :: jsval where
  "record_first =
     Obj [(''type'', Str ''event_msg''), (''timestamp'', Str ''2025-01-01T00:00:00Z''),
          (''payload'', Obj [(''type'', Str ''token_count''), (''n'', Num (Fin 1))])]"

definition record_second :: jsval where
  "record_second =
     Obj [(''type'', Str ''event_msg''), (''timestamp'', Str ''2025-01-01T00:00:00Z''),
          (''payload'', Obj [(''type'', Str ''token_count''), (''n'', Num (Fin 2))])]"

definition record_older :: jsval where
  "record_older =
     Obj [(''type'', Str ''event_msg''), (''timestamp'', Str ''2024-12-31T00:00:00Z''),
          (''payload'', Obj [(''type'', Str ''token_count''), (''n'', Num (Fin 3))])]"

text \<open>
  A host that knows these lines and timestamps, with one file of the given content at
  \<^verbatim>\<open>/log\<close>. Its functions agree with the platform's on every argument the examples pass.
\<close>

definition example_JSON_parse :: "string \<Rightarrow> jsval option" where
  "example_JSON_parse s =
     (if s = line_bad_timestamp then Some record_bad_timestamp
      else if s = line_first then Some record_first
      else if s = line_second then Some record_second
      else if s = line_older then Some record_older
      else if s = line_session_meta then Some (Obj [(''type'', Str ''session_meta'')])
      else None)"

definition example_Date_parse :: "string \<Rightarrow> Date" where
  "example_Date_parse s =
     (if s = ''2025-01-01T00:00:00+00:00'' then TimeValue 1735689600000
      else if s = ''2024-12-31T00:00:00+00:00'' then TimeValue 1735603200000
      else InvalidDate)"

definition join_slash :: "string list \<Rightarrow> string" where
  "join_slash parts = foldr (\<lambda>p acc. if acc = [] then p else p @ ''/'' @ acc) parts []"

definition log_host :: "string \<Rightarrow> host" where
  "log_host content =
     \<lparr>homedir = ''/home/u'',
      path_resolve = (\<lambda>p. p),
      path_join = join_slash,
      existsSync = (\<lambda>p. p = ''/log''),
      glob = (\<lambda>p. Some []),
      stat_mtimeMs = (\<lambda>p. None),
      readFile = (\<lambda>p. if p = ''/log'' then Some content else None),
      JSON_parse = example_JSON_parse,
      Date_parse = example_Date_parse,
      config_sessionPath = [],
      error_message = (\<lambda>e. ''error'')\<rparr>"


text \<open>
  A session tree on 2026-11-03, 12:00 UTC. Today's directory holds \<open>rollout_a\<close>, written
  ten minutes ago and without a token-count event, and \<open>rollout_b\<close>, written two hours
  ago, whose event is stamped 2025-01-01. Yesterday's directory holds \<open>rollout_c\<close>,
  written ninety minutes ago, whose event is the older one, stamped 2024-12-31.
\<close>

definition rollout_a :: string where
  "rollout_a = ''/s/2026/11/03/rollout-a.jsonl''"

definition rollout_b :: string where
  "rollout_b = ''/s/2026/11/03/rollout-b.jsonl''"

definition rollout_c :: string where
  "rollout_c = ''/s/2026/11/02/rollout-c.jsonl''"

definition sessions_host :: host where
  "sessions_host =
     \<lparr>homedir = ''/home/u'',
      path_resolve = (\<lambda>p. p),
      path_join = join_slash,
      existsSync = (\<lambda>p. p = ''/s'' \<or> p = ''/s/2026/11/03'' \<or> p = ''/s/2026/11/02''),
      glob = (\<lambda>p. if p = ''/s/2026/11/03/rollout-*.jsonl'' then Some [rollout_a, rollout_b]
                  else if p = ''/s/2026/11/02/rollout-*.jsonl'' then Some [rollout_c]
                  else Some []),
      stat_mtimeMs = (\<lambda>f. if f = rollout_a then Some 1793706600000
                          else if f = rollout_b then Some 1793700000000
                          else if f = rollout_c then Some 1793701800000
                          else None),
      readFile = (\<lambda>f. if f = rollout_a then Some line_session_meta
                      else if f = rollout_b then Some line_first
                      else if f = rollout_c then Some line_older
                      else None),
      JSON_parse = example_JSON_parse,
      Date_parse = example_Date_parse,
      config_sessionPath = [],
      error_message = (\<lambda>e. ''error'')\<rparr>"



section \<open>Properties of rounding\<close>

subsection \<open>Rounding to the nearest integer\<close>

lemma rhe_int [simp]: "rhe (of_int k) = k"
  by (simp add: rhe_def)

lemma rhe_bounds: "of_int (rhe y) - 1 / 2 \<le> y \<and> y \<le> of_int (rhe y) + 1 / 2"
  unfolding rhe_def Let_def by (auto simp: ) linarith+

lemma rhe_err: "\<bar>of_int (rhe y) - y\<bar> \<le> 1 / 2"
  using rhe_bounds [of y] by linarith

lemma rhe_floor_or_next: "rhe y = \<lfloor>y\<rfloor> \<or> rhe y = \<lfloor>y\<rfloor> + 1"
  by (simp add: rhe_def Let_def)

lemma rhe_mono: "x \<le> y \<Longrightarrow> rhe x \<le> rhe y"
proof -
  assume xy: "x \<le> y"
  have fl: "\<lfloor>x\<rfloor> \<le> \<lfloor>y\<rfloor>" using xy by (rule floor_mono)
  show ?thesis
  proof (cases "\<lfloor>x\<rfloor> = \<lfloor>y\<rfloor>")
    case True
    then have "x - of_int \<lfloor>x\<rfloor> \<le> y - of_int \<lfloor>y\<rfloor>" using xy by simp
    then show ?thesis
      using True unfolding rhe_def Let_def by auto
  next
    case False
    then have "\<lfloor>x\<rfloor> + 1 \<le> \<lfloor>y\<rfloor>" using fl by linarith
    moreover have "rhe x \<le> \<lfloor>x\<rfloor> + 1" using rhe_floor_or_next [of x] by linarith
    moreover have "\<lfloor>y\<rfloor> \<le> rhe y" using rhe_floor_or_next [of y] by linarith
    ultimately show ?thesis by linarith
  qed
qed


subsection \<open>The exponent of the unit in the last place\<close>

lemma ulp_exponent_upper:
  "y < 2 ^ (53 + ulp_exponent y)"
proof -
  have "bitlen \<lfloor>y\<rfloor> \<le> int (53 + ulp_exponent y)"
    by (simp add: ulp_exponent_def)
  then have "\<lfloor>y\<rfloor> < 2 ^ nat (int (53 + ulp_exponent y))"
    unfolding bitlen_le_iff_power by blast
  then have "\<lfloor>y\<rfloor> < 2 ^ (53 + ulp_exponent y)"
    by (simp only: nat_int)
  then show ?thesis
    by (simp add: floor_less_iff)
qed

lemma ulp_exponent_lower:
  assumes "0 < ulp_exponent y"
  shows "2 ^ (52 + ulp_exponent y) \<le> y"
proof -
  have "int (53 + ulp_exponent y) \<le> bitlen \<lfloor>y\<rfloor>"
    using assms by (simp add: ulp_exponent_def)
  then have "(2::int) ^ (nat (int (53 + ulp_exponent y)) - 1) \<le> \<lfloor>y\<rfloor>"
    unfolding bitlen_ge_iff_power by simp
  moreover have "nat (int (53 + ulp_exponent y)) - 1 = 52 + ulp_exponent y"
    by simp
  ultimately have "(2::int) ^ (52 + ulp_exponent y) \<le> \<lfloor>y\<rfloor>"
    by simp
  then have "real_of_int (2 ^ (52 + ulp_exponent y)) \<le> y"
    by (simp only: le_floor_iff)
  then show ?thesis by simp
qed

lemma ulp_exponent_unique:
  assumes "2 ^ (52 + j) \<le> y" and "y < 2 ^ (53 + j)"
  shows "ulp_exponent y = j"
proof (rule ccontr)
  assume neq: "ulp_exponent y \<noteq> j"
  show False
  proof (cases "ulp_exponent y < j")
    case True
    have "y < 2 ^ (53 + ulp_exponent y)" by (rule ulp_exponent_upper)
    also have "(2::real) ^ (53 + ulp_exponent y) \<le> 2 ^ (52 + j)"
      using True by (intro power_increasing) simp_all
    finally show False using assms(1) by simp
  next
    case False
    then have gt: "j < ulp_exponent y" using neq by simp
    then have "2 ^ (52 + ulp_exponent y) \<le> y"
      by (intro ulp_exponent_lower) simp
    moreover have "(2::real) ^ (53 + j) \<le> 2 ^ (52 + ulp_exponent y)"
      using gt by (intro power_increasing) simp_all
    ultimately show False using assms(2) by simp
  qed
qed

lemma ulp_exponent_small:
  assumes "y < 2 ^ 53"
  shows "ulp_exponent y = 0"
proof (rule ccontr)
  assume "ulp_exponent y \<noteq> 0"
  then have pos: "0 < ulp_exponent y" by simp
  then have "2 ^ (52 + ulp_exponent y) \<le> y" by (rule ulp_exponent_lower)
  moreover have "(2::real) ^ 53 \<le> 2 ^ (52 + ulp_exponent y)"
    using pos by (intro power_increasing) simp_all
  ultimately show False using assms by simp
qed

lemma ulp_exponent_le:
  assumes "y < 2 ^ (53 + j)"
  shows "ulp_exponent y \<le> j"
proof (rule ccontr)
  assume "\<not> ulp_exponent y \<le> j"
  then have gt: "j < ulp_exponent y" by simp
  then have "2 ^ (52 + ulp_exponent y) \<le> y"
    by (intro ulp_exponent_lower) simp
  moreover have "(2::real) ^ (53 + j) \<le> 2 ^ (52 + ulp_exponent y)"
    using gt by (intro power_increasing) simp_all
  ultimately show False using assms by simp
qed

lemma ulp_exponent_mono:
  assumes "y1 \<le> y2"
  shows "ulp_exponent y1 \<le> ulp_exponent y2"
proof -
  have "y1 < 2 ^ (53 + ulp_exponent y2)"
    using assms ulp_exponent_upper [of y2] by simp
  then show ?thesis by (rule ulp_exponent_le)
qed

subsection \<open>Rounding a scaled magnitude\<close>

lemma round_scaled_err:
  "\<bar>round_scaled y - y\<bar> \<le> 2 ^ ulp_exponent y / 2"
proof -
  let ?u = "(2::real) ^ ulp_exponent y"
  have u: "0 < ?u" by simp
  have "\<bar>of_int (rhe (y / ?u)) - y / ?u\<bar> \<le> 1 / 2" by (rule rhe_err)
  then have "\<bar>of_int (rhe (y / ?u)) - y / ?u\<bar> * ?u \<le> 1 / 2 * ?u"
    using u by (intro mult_right_mono) simp_all
  moreover have "\<bar>of_int (rhe (y / ?u)) - y / ?u\<bar> * ?u = \<bar>round_scaled y - y\<bar>"
  proof -
    have "\<bar>of_int (rhe (y / ?u)) - y / ?u\<bar> * ?u = \<bar>(of_int (rhe (y / ?u)) - y / ?u) * ?u\<bar>"
      using u by (simp add: abs_mult)
    also have "(of_int (rhe (y / ?u)) - y / ?u) * ?u = round_scaled y - y"
      using u by (simp add: round_scaled_def algebra_simps)
    finally show ?thesis .
  qed
  ultimately show ?thesis by simp
qed

lemma round_scaled_upper: "round_scaled y \<le> 2 ^ (53 + ulp_exponent y)"
proof -
  let ?k = "ulp_exponent y"
  have "y / 2 ^ ?k \<le> 2 ^ 53"
    using ulp_exponent_upper [of y] by (simp add: power_add field_simps)
  then have "rhe (y / 2 ^ ?k) \<le> rhe (of_int (2 ^ 53))"
    by (intro rhe_mono) simp
  then have "rhe (y / 2 ^ ?k) \<le> 2 ^ 53" by (simp only: rhe_int)
  then have "real_of_int (rhe (y / 2 ^ ?k)) \<le> 2 ^ 53"
    by (metis of_int_le_iff of_int_numeral of_int_power)
  then have "real_of_int (rhe (y / 2 ^ ?k)) * 2 ^ ?k \<le> 2 ^ 53 * 2 ^ ?k"
    by (intro mult_right_mono) simp_all
  then show ?thesis by (simp add: round_scaled_def power_add)
qed

lemma round_scaled_lower:
  assumes "0 < ulp_exponent y"
  shows "2 ^ (52 + ulp_exponent y) \<le> round_scaled y"
proof -
  let ?k = "ulp_exponent y"
  have "2 ^ 52 \<le> y / 2 ^ ?k"
    using ulp_exponent_lower [OF assms] by (simp add: power_add field_simps)
  then have "rhe (of_int (2 ^ 52)) \<le> rhe (y / 2 ^ ?k)"
    by (intro rhe_mono) simp
  then have "2 ^ 52 \<le> rhe (y / 2 ^ ?k)" by (simp only: rhe_int)
  then have "2 ^ 52 \<le> real_of_int (rhe (y / 2 ^ ?k))"
    by (metis of_int_le_iff of_int_numeral of_int_power)
  then have "2 ^ 52 * 2 ^ ?k \<le> real_of_int (rhe (y / 2 ^ ?k)) * 2 ^ ?k"
    by (intro mult_right_mono) simp_all
  then show ?thesis by (simp add: round_scaled_def power_add)
qed

lemma round_scaled_nonneg:
  assumes "0 \<le> y"
  shows "0 \<le> round_scaled y"
proof -
  have "rhe (of_int 0) \<le> rhe (y / 2 ^ ulp_exponent y)"
    using assms by (intro rhe_mono) simp
  then have "0 \<le> rhe (y / 2 ^ ulp_exponent y)" by (simp only: rhe_int)
  then show ?thesis by (simp add: round_scaled_def)
qed

lemma round_scaled_mono:
  assumes "y1 \<le> y2"
  shows "round_scaled y1 \<le> round_scaled y2"
proof (cases "ulp_exponent y1 = ulp_exponent y2")
  case True
  have "y1 / 2 ^ ulp_exponent y2 \<le> y2 / 2 ^ ulp_exponent y2"
    using assms by (simp add: divide_right_mono)
  then have "rhe (y1 / 2 ^ ulp_exponent y2) \<le> rhe (y2 / 2 ^ ulp_exponent y2)"
    by (rule rhe_mono)
  then have "real_of_int (rhe (y1 / 2 ^ ulp_exponent y2)) * 2 ^ ulp_exponent y2
              \<le> real_of_int (rhe (y2 / 2 ^ ulp_exponent y2)) * 2 ^ ulp_exponent y2"
    by (intro mult_right_mono) simp_all
  then show ?thesis using True by (simp add: round_scaled_def)
next
  case False
  then have lt: "ulp_exponent y1 < ulp_exponent y2"
    using ulp_exponent_mono [OF assms] by simp
  have "round_scaled y1 \<le> 2 ^ (53 + ulp_exponent y1)" by (rule round_scaled_upper)
  also have "(2::real) ^ (53 + ulp_exponent y1) \<le> 2 ^ (52 + ulp_exponent y2)"
    using lt by (intro power_increasing) simp_all
  also have "\<dots> \<le> round_scaled y2"
    using lt by (intro round_scaled_lower) simp
  finally show ?thesis .
qed

lemma round_scaled_exact:
  assumes "ulp_exponent y = k" and "y = of_int m * 2 ^ k"
  shows "round_scaled y = y"
proof -
  have "y / 2 ^ k = of_int m"
    using assms(2) by simp
  then have "rhe (y / 2 ^ k) = m"
    by (simp only: rhe_int)
  then show ?thesis
    using assms by (simp add: round_scaled_def)
qed

lemma round_scaled_int:
  assumes "0 \<le> i" and "i < 2 ^ 53"
  shows "round_scaled (of_int i * 2 ^ n) = of_int i * 2 ^ n"
proof -
  define y where "y = real_of_int i * 2 ^ n"
  define k where "k = ulp_exponent y"
  have "real_of_int i < 2 ^ 53"
    using assms(2) by (metis of_int_less_iff of_int_numeral of_int_power)
  then have "real_of_int i * 2 ^ n < 2 ^ 53 * 2 ^ n"
    by (intro mult_strict_right_mono) simp_all
  then have "y < 2 ^ (53 + n)" by (simp add: power_add y_def)
  then have "k \<le> n" unfolding k_def by (rule ulp_exponent_le)
  then obtain d where d: "n = k + d"
    using le_Suc_ex by blast
  have "y = of_int (i * 2 ^ d) * 2 ^ k"
    unfolding y_def d by (simp add: power_add)
  then have "round_scaled y = y"
    using k_def by (intro round_scaled_exact [of y k "i * 2 ^ d"]) simp_all
  then show ?thesis by (simp add: y_def)
qed


subsection \<open>Rounding to binary64\<close>

lemma scale_pos: "0 < subnormal_scale"
  by (simp add: subnormal_scale_def)

lemma scale_times_power: "2 ^ n * subnormal_scale = 2 ^ (n + 1074)"
  unfolding subnormal_scale_def by (simp only: power_add)

lemma scale_split:
  assumes "n \<le> 1074"
  shows "\<exists>d. subnormal_scale = 2 ^ n * 2 ^ d \<and> n + d = 1074"
proof -
  obtain d where d: "1074 = n + d"
    using assms le_Suc_ex by blast
  have "(2::real) ^ 1074 = 2 ^ n * 2 ^ d"
    by (subst d) (rule power_add)
  then show ?thesis
    using d unfolding subnormal_scale_def by metis
qed

lemma d64_zero [simp]: "d64 0 = 0"
  by (simp add: d64_def)

lemma d64_minus: "d64 (- x) = - d64 x"
  by (simp add: d64_def sgn_minus)

lemma d64_of_nonneg:
  assumes "0 \<le> x"
  shows "d64 x = round_scaled (x * subnormal_scale) / subnormal_scale"
proof (cases "x = 0")
  case True
  have "round_scaled 0 = 0"
    using round_scaled_int [of 0 0] by simp
  then show ?thesis using True by simp
next
  case False
  then have "0 < x" using assms by simp
  then show ?thesis by (simp add: d64_def)
qed

lemma d64_nonneg:
  assumes "0 \<le> x"
  shows "0 \<le> d64 x"
proof -
  have "0 \<le> x * subnormal_scale"
    using assms scale_pos by simp
  then have "0 \<le> round_scaled (x * subnormal_scale)"
    by (rule round_scaled_nonneg)
  then show ?thesis
    using assms scale_pos by (simp add: d64_of_nonneg)
qed

lemma d64_mono_nonneg:
  assumes "0 \<le> x" and "x \<le> y"
  shows "d64 x \<le> d64 y"
proof -
  have "x * subnormal_scale \<le> y * subnormal_scale"
    using assms(2) scale_pos by (intro mult_right_mono) simp_all
  then have "round_scaled (x * subnormal_scale) \<le> round_scaled (y * subnormal_scale)"
    by (rule round_scaled_mono)
  then have "round_scaled (x * subnormal_scale) / subnormal_scale
               \<le> round_scaled (y * subnormal_scale) / subnormal_scale"
    using scale_pos by (intro divide_right_mono) simp_all
  then show ?thesis
    using assms by (simp add: d64_of_nonneg)
qed

lemma d64_mono:
  assumes "x \<le> y"
  shows "d64 x \<le> d64 y"
proof (cases "0 \<le> x")
  case True
  then show ?thesis using assms by (rule d64_mono_nonneg)
next
  case neg: False
  show ?thesis
  proof (cases "0 \<le> y")
    case True
    have "0 \<le> d64 (- x)" using neg by (intro d64_nonneg) simp
    then have "d64 x \<le> 0" using d64_minus [of x] by simp
    also have "0 \<le> d64 y" using True by (rule d64_nonneg)
    finally show ?thesis .
  next
    case False
    then have "d64 (- y) \<le> d64 (- x)"
      using assms by (intro d64_mono_nonneg) simp_all
    then show ?thesis by (simp add: d64_minus)
  qed
qed

lemma d64_nonneg_int:
  assumes "0 \<le> i" and "i < 2 ^ 53"
  shows "d64 (of_int i * 2 ^ n) = of_int i * 2 ^ n"
proof -
  define S where "S = subnormal_scale"
  have S: "2 ^ n * S = 2 ^ (n + 1074)" "0 < S"
    unfolding S_def by (rule scale_times_power, rule scale_pos)
  have "real_of_int i * 2 ^ n * S = of_int i * (2 ^ n * S)"
    by simp
  also have "\<dots> = of_int i * 2 ^ (n + 1074)"
    by (simp only: S)
  finally have eq: "real_of_int i * 2 ^ n * S = of_int i * 2 ^ (n + 1074)" .
  have "round_scaled (real_of_int i * 2 ^ n * S) = real_of_int i * 2 ^ n * S"
    unfolding eq by (rule round_scaled_int [OF assms])
  then have "round_scaled (real_of_int i * 2 ^ n * S) / S = of_int i * 2 ^ n"
    using S(2) by simp
  moreover have "0 \<le> real_of_int i * 2 ^ n"
    using assms(1) by simp
  ultimately show ?thesis
    unfolding S_def by (simp only: d64_of_nonneg)
qed

lemma d64_nonneg_dyadic:
  assumes "0 \<le> i" and "i < 2 ^ 53" and "n \<le> 1074"
  shows "d64 (of_int i / 2 ^ n) = of_int i / 2 ^ n"
proof -
  define S where "S = subnormal_scale"
  obtain d where d: "S = 2 ^ n * 2 ^ d"
    using scale_split [OF assms(3)] unfolding S_def by blast
  have Spos: "0 < S" unfolding S_def by (rule scale_pos)
  have eq: "real_of_int i / 2 ^ n * S = of_int i * 2 ^ d"
    unfolding d by simp
  have "round_scaled (real_of_int i / 2 ^ n * S) = real_of_int i / 2 ^ n * S"
    unfolding eq by (rule round_scaled_int [OF assms(1,2)])
  then have "round_scaled (real_of_int i / 2 ^ n * S) / S = of_int i / 2 ^ n"
    using Spos by simp
  moreover have "0 \<le> real_of_int i / 2 ^ n"
    using assms(1) by simp
  ultimately show ?thesis
    unfolding S_def by (simp only: d64_of_nonneg)
qed

lemma d64_of_int:
  assumes "\<bar>i\<bar> < 2 ^ 53"
  shows "d64 (of_int i) = of_int i"
proof (cases "0 \<le> i")
  case True
  then show ?thesis
    using d64_nonneg_int [of i 0] assms by simp
next
  case False
  then have "d64 (of_int (- i)) = of_int (- i)"
    using d64_nonneg_int [of "- i" 0] assms by simp
  then show ?thesis
    using d64_minus [of "of_int i"] by simp
qed

lemma d64_err:
  assumes "\<bar>x\<bar> < 2 ^ (53 + j)"
  shows "\<bar>d64 x - x\<bar> \<le> 2 ^ j / 2"
proof -
  define S where "S = subnormal_scale"
  have Spos: "0 < S" unfolding S_def by (rule scale_pos)
  have Spw: "\<And>n. 2 ^ n * S = 2 ^ (n + 1074)"
    unfolding S_def by (rule scale_times_power)
  define y where "y = \<bar>x\<bar> * S"
  have "y < 2 ^ (53 + j) * S"
    unfolding y_def using assms Spos by (intro mult_strict_right_mono) simp_all
  then have "y < 2 ^ (53 + (j + 1074))"
    by (simp only: Spw add.assoc)
  then have "ulp_exponent y \<le> j + 1074"
    by (rule ulp_exponent_le)
  then have "(2::real) ^ ulp_exponent y \<le> 2 ^ (j + 1074)"
    by (intro power_increasing) simp_all
  then have "(2::real) ^ ulp_exponent y \<le> 2 ^ j * S"
    by (simp only: Spw)
  then have "\<bar>round_scaled y - y\<bar> \<le> 2 ^ j * S / 2"
    using round_scaled_err [of y] by linarith
  then have "\<bar>round_scaled y - y\<bar> / S \<le> 2 ^ j * S / 2 / S"
    using Spos by (intro divide_right_mono) simp_all
  moreover have "\<bar>round_scaled y - y\<bar> / S = \<bar>round_scaled y / S - \<bar>x\<bar>\<bar>"
  proof -
    have "\<bar>round_scaled y - y\<bar> / S = \<bar>(round_scaled y - y) / S\<bar>"
      using Spos by (simp add: abs_divide)
    also have "(round_scaled y - y) / S = round_scaled y / S - \<bar>x\<bar>"
      using Spos by (simp add: y_def diff_divide_distrib)
    finally show ?thesis .
  qed
  moreover have "2 ^ j * S / 2 / S = 2 ^ j / 2"
    using Spos by simp
  ultimately have err: "\<bar>round_scaled y / S - \<bar>x\<bar>\<bar> \<le> 2 ^ j / 2"
    by simp
  show ?thesis
  proof (cases "0 \<le> x")
    case True
    then show ?thesis using err by (simp add: d64_of_nonneg y_def S_def)
  next
    case False
    then have "d64 (- x) = round_scaled y / S"
      by (simp add: d64_of_nonneg y_def S_def)
    then have "d64 x = - (round_scaled y / S)"
      using d64_minus [of x] by simp
    moreover have "\<bar>x\<bar> = - x" using False by simp
    ultimately have "\<bar>d64 x - x\<bar> = \<bar>round_scaled y / S - \<bar>x\<bar>\<bar>"
      by (simp add: abs_minus_commute)
    then show ?thesis using err by simp
  qed
qed


text \<open>The smallest positive value, and evaluation in a known binade.\<close>

lemma d64_positive_min:
  assumes "0 < d64 x"
  shows "1 \<le> d64 x * subnormal_scale"
proof -
  have x: "0 < x"
  proof (rule ccontr)
    assume "\<not> 0 < x"
    then have "d64 x \<le> d64 0" by (intro d64_mono) simp
    then show False using assms by simp
  qed
  define y where "y = x * subnormal_scale"
  have d: "d64 x * subnormal_scale = round_scaled y"
    using x scale_pos by (simp add: d64_of_nonneg y_def)
  then have pos: "0 < round_scaled y" using assms scale_pos by (metis mult_pos_pos)
  then have "0 < real_of_int (rhe (y / 2 ^ ulp_exponent y))"
    unfolding round_scaled_def by (simp add: zero_less_mult_iff)
  then have "1 \<le> rhe (y / 2 ^ ulp_exponent y)" by simp
  then have "1 \<le> real_of_int (rhe (y / 2 ^ ulp_exponent y))" by simp
  moreover have "(1::real) \<le> 2 ^ ulp_exponent y" by simp
  ultimately have "1 * 1 \<le> real_of_int (rhe (y / 2 ^ ulp_exponent y)) * 2 ^ ulp_exponent y"
    by (intro mult_mono) simp_all
  then show ?thesis
    using d by (simp add: round_scaled_def)
qed

lemma d64_in_binade:
  assumes "2 ^ 52 \<le> \<bar>x\<bar> * 2 ^ j" and "\<bar>x\<bar> * 2 ^ j < 2 ^ 53" and "j \<le> 1074"
  shows "d64 x = sgn x * of_int (rhe (\<bar>x\<bar> * 2 ^ j)) / 2 ^ j"
proof -
  define S where "S = subnormal_scale"
  obtain d where d: "S = 2 ^ j * 2 ^ d"
    using scale_split [OF assms(3)] unfolding S_def by blast
  define y where "y = \<bar>x\<bar> * S"
  have y: "y = \<bar>x\<bar> * 2 ^ j * 2 ^ d"
    unfolding y_def d by simp
  have "2 ^ 52 * 2 ^ d \<le> y"
    unfolding y using assms(1) by (intro mult_right_mono) simp_all
  then have lo: "2 ^ (52 + d) \<le> y" by (simp only: power_add)
  have "y < 2 ^ 53 * 2 ^ d"
    unfolding y using assms(2) by (intro mult_strict_right_mono) simp_all
  then have hi: "y < 2 ^ (53 + d)" by (simp only: power_add)
  have k: "ulp_exponent y = d"
    using lo hi by (rule ulp_exponent_unique)
  have "y / 2 ^ d = \<bar>x\<bar> * 2 ^ j"
    unfolding y by simp
  then have "round_scaled y = of_int (rhe (\<bar>x\<bar> * 2 ^ j)) * 2 ^ d"
    using k by (simp add: round_scaled_def)
  then have "round_scaled y / S = of_int (rhe (\<bar>x\<bar> * 2 ^ j)) / 2 ^ j"
    unfolding d by simp
  moreover have "d64 x = sgn x * (round_scaled y / S)"
    by (simp add: d64_def y_def S_def)
  ultimately show ?thesis
    by simp
qed

lemma d64_in_high_binade:
  assumes "2 ^ 52 \<le> \<bar>x\<bar> / 2 ^ j" and "\<bar>x\<bar> / 2 ^ j < 2 ^ 53"
  shows "d64 x = sgn x * of_int (rhe (\<bar>x\<bar> / 2 ^ j)) * 2 ^ j"
proof -
  define S where "S = subnormal_scale"
  have Spos: "0 < S" unfolding S_def by (rule scale_pos)
  have Spw: "2 ^ j * S = 2 ^ (j + 1074)"
    unfolding S_def by (rule scale_times_power)
  define y where "y = \<bar>x\<bar> * S"
  define z where "z = \<bar>x\<bar> / 2 ^ j"
  have y: "y = z * (2 ^ j * S)"
    unfolding y_def z_def by simp
  have y': "y = z * 2 ^ (j + 1074)"
    unfolding y by (simp only: Spw)
  have "2 ^ 52 * 2 ^ (j + 1074) \<le> y"
    unfolding y' using assms(1) unfolding z_def [symmetric] by (intro mult_right_mono) simp_all
  then have lo: "2 ^ (52 + (j + 1074)) \<le> y" by (simp only: power_add)
  have "y < 2 ^ 53 * 2 ^ (j + 1074)"
    unfolding y' using assms(2) unfolding z_def [symmetric]
    by (intro mult_strict_right_mono) simp_all
  then have hi: "y < 2 ^ (53 + (j + 1074))" by (simp only: power_add)
  have k: "ulp_exponent y = j + 1074"
    using lo hi by (rule ulp_exponent_unique)
  have "y / 2 ^ (j + 1074) = z"
    unfolding y' by simp
  then have "round_scaled y = of_int (rhe z) * 2 ^ (j + 1074)"
    using k by (simp add: round_scaled_def)
  then have "round_scaled y = of_int (rhe z) * (2 ^ j * S)"
    by (simp only: Spw)
  then have "round_scaled y / S = of_int (rhe z) * 2 ^ j"
    using Spos by simp
  moreover have "d64 x = sgn x * (round_scaled y / S)"
    by (simp add: d64_def y_def S_def)
  ultimately show ?thesis
    by (simp add: z_def)
qed

text \<open>The error of rounding, in a binade below \<open>2 ^ 53\<close>.\<close>

lemma d64_err_fine:
  assumes "\<bar>x\<bar> * 2 ^ j < 2 ^ 53" and "j \<le> 1074"
  shows "\<bar>d64 x - x\<bar> \<le> 1 / 2 ^ j / 2"
proof -
  define S where "S = subnormal_scale"
  have Spos: "0 < S" unfolding S_def by (rule scale_pos)
  obtain d where d: "S = 2 ^ j * 2 ^ d"
    using scale_split [OF assms(2)] unfolding S_def by blast
  define y where "y = \<bar>x\<bar> * S"
  have "y = \<bar>x\<bar> * 2 ^ j * 2 ^ d"
    by (simp add: y_def d)
  also have "\<dots> < 2 ^ 53 * 2 ^ d"
    using assms(1) by (intro mult_strict_right_mono) simp_all
  finally have "y < 2 ^ (53 + d)"
    by (simp add: power_add)
  then have "ulp_exponent y \<le> d"
    by (rule ulp_exponent_le)
  then have "(2::real) ^ ulp_exponent y \<le> 2 ^ d"
    by (intro power_increasing) simp_all
  then have "\<bar>round_scaled y - y\<bar> \<le> 2 ^ d / 2"
    using round_scaled_err [of y] by linarith
  then have "\<bar>round_scaled y - y\<bar> / S \<le> 2 ^ d / 2 / S"
    using Spos by (intro divide_right_mono) simp_all
  moreover have "\<bar>round_scaled y - y\<bar> / S = \<bar>round_scaled y / S - \<bar>x\<bar>\<bar>"
  proof -
    have "\<bar>round_scaled y - y\<bar> / S = \<bar>(round_scaled y - y) / S\<bar>"
      using Spos by (simp add: abs_divide)
    also have "(round_scaled y - y) / S = round_scaled y / S - \<bar>x\<bar>"
      using Spos by (simp add: y_def diff_divide_distrib)
    finally show ?thesis .
  qed
  moreover have "2 ^ d / 2 / S = 1 / 2 ^ j / (2::real)"
    by (simp add: d)
  ultimately have err: "\<bar>round_scaled y / S - \<bar>x\<bar>\<bar> \<le> 1 / 2 ^ j / 2"
    by simp
  show ?thesis
  proof (cases "0 \<le> x")
    case True
    then show ?thesis using err by (simp add: d64_of_nonneg y_def S_def)
  next
    case False
    then have "d64 (- x) = round_scaled y / S"
      by (simp add: d64_of_nonneg y_def S_def)
    then have "d64 x = - (round_scaled y / S)"
      using d64_minus [of x] by simp
    moreover have "\<bar>x\<bar> = - x" using False by simp
    ultimately have "\<bar>d64 x - x\<bar> = \<bar>round_scaled y / S - \<bar>x\<bar>\<bar>"
      by (simp add: abs_minus_commute)
    then show ?thesis using err by simp
  qed
qed

text \<open>A bound that is itself a binary64 value is kept by rounding.\<close>

lemma d64_le_int:
  assumes "x \<le> of_int i" and "\<bar>i\<bar> < 2 ^ 53"
  shows "d64 x \<le> of_int i"
  using d64_mono [OF assms(1)] d64_of_int [OF assms(2)] by simp

lemma d64_ge_int:
  assumes "of_int i \<le> x" and "\<bar>i\<bar> < 2 ^ 53"
  shows "of_int i \<le> d64 x"
  using d64_mono [OF assms(1)] d64_of_int [OF assms(2)] by simp

lemma d64_abs_le_int:
  assumes "\<bar>x\<bar> \<le> of_int i" and "i < 2 ^ 53"
  shows "\<bar>d64 x\<bar> \<le> of_int i"
proof -
  have i: "0 \<le> i" using assms(1) by linarith
  have "d64 x \<le> of_int i"
    using assms i by (intro d64_le_int) linarith+
  moreover have "of_int (- i) \<le> d64 x"
    using assms i by (intro d64_ge_int) (simp, linarith+)
  ultimately show ?thesis by simp
qed

lemma d64_power_two: "d64 (2 ^ n) = 2 ^ n"
  using d64_nonneg_int [of 1 n] by simp

lemma d64_ge_power_two: "2 ^ n \<le> x \<Longrightarrow> 2 ^ n \<le> d64 x"
  using d64_mono [of "2 ^ n" x] by (simp add: d64_power_two)

lemma d64_least_positive: "d64 (1 / subnormal_scale) = 1 / subnormal_scale"
  using d64_nonneg_dyadic [of 1 1074] by (simp add: subnormal_scale_def)

lemma d64_ge_least_positive:
  assumes "1 / subnormal_scale \<le> x"
  shows "1 / subnormal_scale \<le> d64 x"
  using d64_mono [OF assms] by (simp add: d64_least_positive)

text \<open>Values met when the normalizer is evaluated.\<close>

lemma d64_numeral [simp]:
  "(numeral k :: int) < 9007199254740992 \<Longrightarrow> d64 (numeral k) = numeral k"
  using d64_of_int [of "numeral k"] by simp

lemma d64_neg_numeral [simp]:
  "(numeral k :: int) < 9007199254740992 \<Longrightarrow> d64 (- numeral k) = - numeral k"
  by (simp add: d64_minus)

lemma d64_one [simp]: "d64 1 = 1"
  using d64_of_int [of 1] by simp

lemma d64_half [simp]: "d64 (1 / 2) = 1 / 2"
  using d64_nonneg_dyadic [of 1 1] by simp

text \<open>
  Values that are not binary64 values, with their products with 1000 or 100:
  \<^verbatim>\<open>1735693200.001\<close>, \<^verbatim>\<open>0.3\<close>, \<^verbatim>\<open>16639999999999.957\<close> and a third; values that are,
  beyond \<open>2 ^ 53\<close> or with a fractional part.
\<close>

lemma d64_1735693200_001: "d64 (1735693200001 / 1000) = 3640012465768497 / 2097152"
  using d64_in_binade [of "1735693200001 / 1000" 22] by (simp add: rhe_def)

lemma d64_1735693200_001_ms: "d64 (3640012465768497 / 2097152 * 1000) = 1735693200001"
  using d64_in_binade [of "3640012465768497 / 2097152 * 1000" 12] by (simp add: rhe_def)

lemma d64_three_tenths: "d64 (3 / 10) = 5404319552844595 / 18014398509481984"
  using d64_in_binade [of "3 / 10" 54] by (simp add: rhe_def)

lemma d64_three_tenths_ms: "d64 (5404319552844595 / 18014398509481984 * 1000) = 300"
  using d64_in_binade [of "5404319552844595 / 18014398509481984 * 1000" 44]
  by (simp add: rhe_def)

lemma d64_16639999999999_957: "d64 (16639999999999957 / 1000) = 4259839999999989 / 256"
  using d64_in_binade [of "16639999999999957 / 1000" 9] by (simp add: rhe_def)

lemma d64_16639999999999_957_ms: "d64 (532479999999998625 / 32) = 16639999999999958"
  using d64_in_high_binade [of "532479999999998625 / 32" 1] by (simp add: rhe_def)

lemma d64_1e16: "d64 10000000000000000 = 10000000000000000"
  using d64_nonneg_int [of 152587890625 16] by simp

lemma d64_1e19: "d64 10000000000000000000 = 10000000000000000000"
  using d64_nonneg_int [of 19073486328125 19] by simp

lemma d64_7199_halves [simp]: "d64 (7199 / 2) = 7199 / 2"
  using d64_nonneg_dyadic [of 7199 1] by simp

lemma d64_one_third: "d64 (1 / 3) = 6004799503160661 / 18014398509481984"
  using d64_in_binade [of "1 / 3" 54] by (simp add: rhe_def)

lemma d64_one_third_percent:
  "d64 (150119987579016525 / 4503599627370496) = 2345624805922133 / 70368744177664"
  using d64_in_binade [of "150119987579016525 / 4503599627370496" 47] by (simp add: rhe_def)

lemma d64_1735693200_1024th: "d64 (1777349836801 / 1024) = 1777349836801 / 1024"
  using d64_nonneg_dyadic [of 1777349836801 10] by simp

lemma d64_1735693200_1024th_ms: "d64 (222168729600125 / 128) = 222168729600125 / 128"
  using d64_nonneg_dyadic [of 222168729600125 7] by simp

lemma d64_8001735693200_1024th: "d64 (8193777349836801 / 1024) = 8193777349836801 / 1024"
  using d64_nonneg_dyadic [of 8193777349836801 10] by simp

lemma d64_8001735693200_1024th_ms: "d64 (1024222168729600125 / 128) = 8001735693200001"
  using d64_in_binade [of "1024222168729600125 / 128" 0] by (simp add: rhe_def)

section \<open>Properties of the normalizer\<close>

text \<open>The definitions that evaluate the normalizer on a concrete descriptor.\<close>

lemmas normalizer_eval =
  processWindow_def calculateResetTime_def resolved_resetTime_def resolved_reset_def
  unresolved_reset_def windowMinutes_of_def timePercent_of_def nullish_def Let_def
  num_gt_def num_sub_def rnd_def binary64_limit_def signed_inf_def Number_isNaN_def
  date_lt_def instant_of_def trunc_toward_zero_def

subsection \<open>Arithmetic and clipping\<close>

lemma binary64_limit_large: "36028797018963968 < binary64_limit"
  by (simp add: binary64_limit_def)

lemma binary64_limit_pos: "0 < binary64_limit"
  by (simp add: binary64_limit_def)

lemma real_of_int_less_53: "i < 2 ^ 53 \<Longrightarrow> real_of_int i < 9007199254740992"
proof -
  assume "i < 2 ^ 53"
  then have "i < 9007199254740992" by simp
  then show ?thesis by linarith
qed

lemma rnd_cases:
  obtains (fin) "rnd x = Fin (d64 x)" "\<bar>d64 x\<bar> < binary64_limit"
        | (pinf) "rnd x = PInf" "binary64_limit \<le> d64 x"
        | (ninf) "rnd x = NInf" "d64 x \<le> - binary64_limit"
proof -
  have "0 < binary64_limit" by (simp add: binary64_limit_def)
  then show ?thesis
    using that
    by (cases "binary64_limit \<le> d64 x"; cases "d64 x \<le> - binary64_limit")
       (simp_all add: rnd_def)
qed

lemma rnd_in_range: "\<bar>d64 x\<bar> < binary64_limit \<Longrightarrow> rnd x = Fin (d64 x)"
  by (cases x rule: rnd_cases) simp_all

lemma rnd_not_NaN [simp]: "rnd x \<noteq> NaN"
  by (cases x rule: rnd_cases) simp_all

lemma rnd_zero: "rnd 0 = Fin 0"
  by (simp add: rnd_def binary64_limit_def)

lemma double_of_NaN_iff [simp]: "double_of a = NaN \<longleftrightarrow> a = NaN"
  by (cases a) simp_all

lemma rnd_nonneg:
  assumes "0 \<le> x"
  shows "rnd x = PInf \<or> (\<exists>y. rnd x = Fin y \<and> 0 \<le> y)"
  using d64_nonneg [OF assms] binary64_limit_pos by (cases x rule: rnd_cases) simp_all

lemma rnd_between:
  assumes "0 \<le> x" and "x \<le> of_int i" and "i < 2 ^ 53"
  shows "\<exists>y. rnd x = Fin y \<and> 0 \<le> y \<and> y \<le> of_int i"
proof -
  have "\<bar>d64 x\<bar> \<le> of_int i"
    using assms by (intro d64_abs_le_int) simp_all
  moreover have "real_of_int i < binary64_limit"
    using real_of_int_less_53 [OF assms(3)] binary64_limit_large by linarith
  ultimately have "rnd x = Fin (d64 x)" "d64 x \<le> of_int i"
    by (simp_all add: rnd_in_range)
  then show ?thesis
    using d64_nonneg [OF assms(1)] by simp
qed

lemma new_Date_rnd: "new_Date (rnd x) = instant_of (d64 x)"
proof (cases x rule: rnd_cases)
  case fin
  then show ?thesis by simp
next
  case pinf
  then show ?thesis using binary64_limit_large by (simp add: instant_of_def)
next
  case ninf
  then show ?thesis using binary64_limit_large by (simp add: instant_of_def)
qed

lemma rnd_Fin_D: "rnd x = Fin y \<Longrightarrow> y = d64 x"
  by (cases x rule: rnd_cases) simp_all

text \<open>Beyond \<open>2 ^ 54\<close>, which is past the range of a date, rounding stays beyond it.\<close>

lemma d64_abs_ge_power_two:
  assumes "2 ^ n \<le> \<bar>x\<bar>"
  shows "2 ^ n \<le> \<bar>d64 x\<bar>"
proof (cases "0 \<le> x")
  case True
  then have "2 ^ n \<le> d64 x"
    using assms by (intro d64_ge_power_two) simp
  then show ?thesis by linarith
next
  case False
  then have "2 ^ n \<le> d64 (- x)"
    using assms by (intro d64_ge_power_two) simp
  then show ?thesis by (simp add: d64_minus)
qed

lemma instant_of_far:
  assumes "18014398509481984 \<le> \<bar>x\<bar>"
  shows "instant_of (d64 x) = InvalidDate"
  using d64_abs_ge_power_two [of 54 x] assms by (simp add: instant_of_def)

lemma d64_far:
  assumes "36028797018963968 \<le> \<bar>x\<bar>"
  shows "36028797018963968 \<le> \<bar>d64 x\<bar>"
  using d64_abs_ge_power_two [of 55 x] assms by simp

text \<open>
  The two dates of lines 21 and 23, through the arithmetic of the code: the field is read
  as a binary64 value, the product and the sum are each rounded, and the date clips the
  result.
\<close>

lemma new_Date_scaled:
  "new_Date (num_mul (rnd a) (Fin 1000)) = instant_of (d64 (d64 a * 1000))"
proof (cases a rule: rnd_cases)
  case fin
  then show ?thesis by (simp add: new_Date_rnd)
next
  case pinf
  then have "18014398509481984 \<le> \<bar>d64 a * 1000\<bar>"
    using binary64_limit_large by linarith
  then show ?thesis
    using pinf by (simp add: instant_of_far signed_inf_def)
next
  case ninf
  then have "18014398509481984 \<le> \<bar>d64 a * 1000\<bar>"
    using binary64_limit_large by linarith
  then show ?thesis
    using ninf by (simp add: instant_of_far signed_inf_def)
qed

lemma new_Date_add_rnd:
  assumes "\<bar>t\<bar> \<le> 8640000000000000"
  shows "new_Date (num_add (Fin (of_int t)) (rnd m)) = instant_of (d64 (of_int t + d64 m))"
proof -
  have t: "\<bar>real_of_int t\<bar> \<le> 8640000000000000"
    using assms by linarith
  show ?thesis
  proof (cases m rule: rnd_cases)
    case fin
    then show ?thesis by (simp add: new_Date_rnd)
  next
    case pinf
    then have "18014398509481984 \<le> \<bar>of_int t + d64 m\<bar>"
      using t binary64_limit_large by linarith
    then show ?thesis
      using pinf by (simp add: instant_of_far)
  next
    case ninf
    then have "18014398509481984 \<le> \<bar>of_int t + d64 m\<bar>"
      using t binary64_limit_large by linarith
    then show ?thesis
      using ninf by (simp add: instant_of_far)
  qed
qed

lemma new_Date_offset:
  assumes "\<bar>t\<bar> \<le> 8640000000000000"
  shows "new_Date (num_add (getTime (TimeValue t)) (num_mul (rnd s) (Fin 1000)))
           = instant_of (d64 (of_int t + d64 (d64 s * 1000)))"
proof -
  have t: "\<bar>real_of_int t\<bar> \<le> 8640000000000000"
    using assms by linarith
  have far: "instant_of (d64 (of_int t + d64 (d64 s * 1000))) = InvalidDate"
    if "binary64_limit \<le> \<bar>d64 s\<bar>"
  proof -
    have "36028797018963968 \<le> \<bar>d64 s * 1000\<bar>"
      using that binary64_limit_large by linarith
    then have "36028797018963968 \<le> \<bar>d64 (d64 s * 1000)\<bar>"
      by (rule d64_far)
    then have "18014398509481984 \<le> \<bar>of_int t + d64 (d64 s * 1000)\<bar>"
      using t by linarith
    then show ?thesis by (rule instant_of_far)
  qed
  show ?thesis
  proof (cases s rule: rnd_cases)
    case fin
    then show ?thesis
      using new_Date_add_rnd [OF assms, of "d64 s * 1000"] by simp
  next
    case pinf
    then show ?thesis using far by (simp add: signed_inf_def)
  next
    case ninf
    then show ?thesis using far by (simp add: signed_inf_def)
  qed
qed

text \<open>A positive window length gives a positive number of seconds, possibly infinite.\<close>

lemma windowSeconds_cases:
  assumes "is_positive_number v"
  shows "num_mul (windowMinutes_of v) (Fin 60) = PInf
         \<or> (\<exists>x. num_mul (windowMinutes_of v) (Fin 60) = Fin x \<and> 0 < x)"
proof -
  obtain a where a: "v = Num a" "num_gt (double_of a) (Fin 0)"
    using assms by (cases v) simp_all
  have wm: "windowMinutes_of v = double_of a"
    using assms a by (simp add: windowMinutes_of_def)
  show ?thesis
  proof (cases "double_of a")
    case (Fin y)
    then obtain x where "a = Fin x" "rnd x = Fin y"
      by (cases a) simp_all
    then have y: "y = d64 x" by (simp add: rnd_Fin_D)
    have pos: "0 < y" using a(2) Fin by (simp add: num_gt_def)
    then have "1 \<le> y * subnormal_scale"
      unfolding y by (rule d64_positive_min)
    then have "1 / subnormal_scale \<le> y"
      using scale_pos by (simp add: field_simps)
    then have "1 / subnormal_scale \<le> y * 60"
      using pos by linarith
    then have "1 / subnormal_scale \<le> d64 (y * 60)"
      by (rule d64_ge_least_positive)
    then have "0 < d64 (y * 60)"
      using scale_pos less_le_trans [of 0 "1 / subnormal_scale"] by simp
    then show ?thesis
      using binary64_limit_pos by (cases "y * 60" rule: rnd_cases) (simp_all add: wm Fin)
  next
    case PInf
    then show ?thesis by (simp add: wm signed_inf_def)
  qed (use a in \<open>simp_all add: num_gt_def\<close>)
qed

lemma windowSeconds_positive:
  "is_positive_number v \<Longrightarrow> \<not> num_le (num_mul (windowMinutes_of v) (Fin 60)) (Fin 0)"
  using windowSeconds_cases [of v] by auto

lemma windowSeconds_zero:
  "\<not> is_positive_number v \<Longrightarrow> num_mul (windowMinutes_of v) (Fin 60) = Fin 0"
  by (simp add: windowMinutes_of_def rnd_zero)

text \<open>Truncation moves a value by less than one; two values a second apart stay so.\<close>

lemma trunc_nonneg:
  "0 \<le> x \<Longrightarrow> real_of_int (trunc_toward_zero x) \<le> x \<and> x < real_of_int (trunc_toward_zero x) + 1"
  unfolding trunc_toward_zero_def by simp

lemma trunc_neg:
  "x < 0 \<Longrightarrow> x \<le> real_of_int (trunc_toward_zero x) \<and> real_of_int (trunc_toward_zero x) < x + 1"
  unfolding trunc_toward_zero_def by simp linarith

lemma trunc_err: "\<bar>real_of_int (trunc_toward_zero x) - x\<bar> < 1"
  using trunc_nonneg [of x] trunc_neg [of x] by (cases "0 \<le> x") simp_all

lemma scaled_err: "\<bar>x * 1000 - y * 1000\<bar> = 1000 * \<bar>x - y\<bar>" for x y :: real
  by (simp add: abs_if)

lemma trunc_within:
  assumes "\<bar>x - y\<bar> \<le> 1000"
  shows "\<bar>trunc_toward_zero x - trunc_toward_zero y\<bar> \<le> 1000"
proof -
  have "\<bar>real_of_int (trunc_toward_zero x) - real_of_int (trunc_toward_zero y)\<bar> < 1001"
  proof (cases "0 \<le> x"; cases "0 \<le> y")
    assume "0 \<le> x" "0 \<le> y"
    then show ?thesis using assms trunc_nonneg [of x] trunc_nonneg [of y] by linarith
  next
    assume "0 \<le> x" "\<not> 0 \<le> y"
    then show ?thesis using assms trunc_nonneg [of x] trunc_neg [of y] by linarith
  next
    assume "\<not> 0 \<le> x" "0 \<le> y"
    then show ?thesis using assms trunc_neg [of x] trunc_nonneg [of y] by linarith
  next
    assume "\<not> 0 \<le> x" "\<not> 0 \<le> y"
    then show ?thesis using assms trunc_neg [of x] trunc_neg [of y] by linarith
  qed
  then show ?thesis by linarith
qed

subsection \<open>Resolution of the reset instant\<close>

lemma resolved_None_iff:
  "resolved_resetTime ts rl = None \<longleftrightarrow>
     \<not> is_number_not_NaN (get_prop rl ''resets_at'') \<and>
     \<not> is_number_not_NaN (get_prop rl ''resets_in_seconds'')"
  by (simp add: resolved_resetTime_def)

lemma resolved_resets_at:
  assumes "get_prop rl ''resets_at'' = Num (Fin a)"
  shows "resolved_resetTime ts rl = Some (instant_of (d64 (d64 a * 1000)))"
  using assms by (simp add: resolved_resetTime_def Number_isNaN_def new_Date_scaled)

lemma resolved_resets_in_seconds:
  assumes "\<not> is_number_not_NaN (get_prop rl ''resets_at'')"
      and "get_prop rl ''resets_in_seconds'' = Num (Fin s)"
      and "\<bar>t\<bar> \<le> 8640000000000000"
  shows "resolved_resetTime (TimeValue t) rl
           = Some (instant_of (d64 (of_int t + d64 (d64 s * 1000))))"
  using assms new_Date_offset [of t s] by (simp add: resolved_resetTime_def Number_isNaN_def)

lemma resolved_infinite:
  assumes "get_prop rl ''resets_at'' = Num PInf \<or> get_prop rl ''resets_at'' = Num NInf"
  shows "resolved_resetTime ts rl = Some InvalidDate"
  using assms by (auto simp: resolved_resetTime_def Number_isNaN_def signed_inf_def)

lemma resolved_infinite_offset:
  assumes "\<not> is_number_not_NaN (get_prop rl ''resets_at'')"
      and "get_prop rl ''resets_in_seconds'' = Num PInf
           \<or> get_prop rl ''resets_in_seconds'' = Num NInf"
  shows "resolved_resetTime ts rl = Some InvalidDate"
proof (cases ts)
  case InvalidDate
  then show ?thesis
    using assms by (auto simp: resolved_resetTime_def Number_isNaN_def)
next
  case (TimeValue t)
  then show ?thesis
    using assms by (auto simp: resolved_resetTime_def Number_isNaN_def signed_inf_def)
qed

lemma resolved_invalid_record:
  assumes "\<not> is_number_not_NaN (get_prop rl ''resets_at'')"
      and "is_number_not_NaN (get_prop rl ''resets_in_seconds'')"
  shows "resolved_resetTime InvalidDate rl = Some InvalidDate"
  using assms by (simp add: resolved_resetTime_def)

lemma calculateResetTime_total:
  "\<not> nullish rl \<Longrightarrow> \<exists>r. calculateResetTime now ts rl = Inr r"
  by (simp add: calculateResetTime_def split: option.splits)

lemma calculateResetTime_cases:
  assumes "\<not> nullish rl"
  shows "calculateResetTime now ts rl =
     Inr (case resolved_resetTime ts rl of
            Some (TimeValue x) \<Rightarrow> resolved_reset now (TimeValue x)
          | _ \<Rightarrow> unresolved_reset ts)"
  using assms
  by (simp add: calculateResetTime_def Number_isNaN_def split: option.splits Date.splits)

subsection \<open>The window when it is outdated or has no valid length\<close>

lemma processWindow_outdated:
  assumes "calculateResetTime now ts rl = Inr r" and "isOutdated r"
  shows "processWindow now ts rl =
           Inr \<lparr>used_percent = get_prop rl ''used_percent'',
                 time_percent =
                   (if is_positive_number (get_prop rl ''window_minutes'') then Fin 100 else Fin 0),
                 reset_time = resetTime r,
                 outdated = True,
                 window_minutes = windowMinutes_of (get_prop rl ''window_minutes'')\<rparr>"
  using assms
  by (simp add: processWindow_def timePercent_of_def Let_def windowSeconds_positive
        windowSeconds_zero)

lemma processWindow_invalid_window:
  assumes "calculateResetTime now ts rl = Inr r"
      and "\<not> is_positive_number (get_prop rl ''window_minutes'')"
  shows "processWindow now ts rl =
           Inr \<lparr>used_percent = get_prop rl ''used_percent'',
                 time_percent = Fin 0,
                 reset_time = resetTime r,
                 outdated = isOutdated r,
                 window_minutes = Fin 0\<rparr>"
proof -
  have "windowMinutes_of (get_prop rl ''window_minutes'') = Fin 0"
    using assms(2) by (simp add: windowMinutes_of_def)
  then show ?thesis
    using assms by (simp add: processWindow_def timePercent_of_def Let_def rnd_zero)
qed

subsection \<open>The time-percent of a finite window\<close>

text \<open>
  The seconds until the reset are never negative and never NaN; with a finite, positive
  window length the elapsed fraction then lies between 0 and 1.
\<close>

lemma max_zero_floor:
  "\<exists>s. Math_max (Fin 0) (Math_floor (Fin z)) = Fin s \<and> 0 \<le> s"
  by (cases "0 < \<lfloor>z\<rfloor>") simp_all

lemma max_zero_floor_quotient:
  "Math_max (Fin 0) (Math_floor (num_div d (Fin 1000))) = PInf
   \<or> (\<exists>s. Math_max (Fin 0) (Math_floor (num_div d (Fin 1000))) = Fin s \<and> 0 \<le> s)"
   if "d \<noteq> NaN"
proof (cases d)
  case (Fin x)
  show ?thesis
    by (cases "x / 1000" rule: rnd_cases) (simp_all add: Fin max_zero_floor)
qed (use that in \<open>simp_all add: signed_inf_def\<close>)

lemma secondsUntilReset_range:
  "secondsUntilReset (resolved_reset (TimeValue n) (TimeValue t)) = PInf
   \<or> (\<exists>s. secondsUntilReset (resolved_reset (TimeValue n) (TimeValue t)) = Fin s \<and> 0 \<le> s)"
proof -
  have "num_sub (getTime (TimeValue t)) (getTime (TimeValue n)) \<noteq> NaN"
    by (cases "real_of_int t - real_of_int n" rule: rnd_cases) (simp_all add: num_sub_def)
  then show ?thesis
    unfolding resolved_reset_def by (simp add: max_zero_floor_quotient)
qed

lemma elapsed_fraction_range:
  assumes "0 < x" and "s = PInf \<or> (\<exists>y. s = Fin y \<and> 0 \<le> y)"
  shows "\<exists>p. timePercent_of (Fin x) False s = Fin p \<and> 0 \<le> p \<and> p \<le> 100"
proof -
  have "\<exists>b. Math_max (Fin 0) (Math_min (Fin x) (num_sub (Fin x) s)) = Fin b \<and> 0 \<le> b \<and> b \<le> x"
  proof -
    consider (inf) "s = PInf" | (fin) y where "s = Fin y" "0 \<le> y"
      using assms(2) by blast
    then show ?thesis
    proof cases
      case inf
      then show ?thesis using assms(1) by (simp add: num_sub_def)
    next
      case fin
      show ?thesis
        using fin assms(1) by (cases "x - y" rule: rnd_cases) (auto simp: num_sub_def)
    qed
  qed
  then obtain b where b: "Math_max (Fin 0) (Math_min (Fin x) (num_sub (Fin x) s)) = Fin b"
    and b0: "0 \<le> b" and bx: "b \<le> x" by blast
  define q where "q = b / x"
  have frac: "0 \<le> q" "q \<le> of_int 1"
    using assms(1) b0 bx by (simp_all add: q_def)
  obtain q' where q': "rnd q = Fin q'" "0 \<le> q'" "q' \<le> 1"
    using rnd_between [OF frac] by auto
  have "0 \<le> q' * 100" "q' * 100 \<le> of_int 100"
    using q'(2,3) by simp_all
  then obtain p where p: "rnd (q' * 100) = Fin p" "0 \<le> p" "p \<le> 100"
    using rnd_between [of "q' * 100" 100] by auto
  have "timePercent_of (Fin x) False s = Fin p"
    using assms(1) b q'(1) p(1) by (simp add: timePercent_of_def Let_def flip: q_def)
  then show ?thesis
    using p(2,3) by blast
qed

text \<open>
  Whenever the window length in seconds is not infinite, the time-percent is a number
  between 0 and 100. (The clock reading is a valid date, as \<^verbatim>\<open>new Date()\<close> always is.)
\<close>

lemma time_percent_in_range:
  assumes "processWindow (TimeValue n) recordTimestamp rateLimit = Inr w"
      and "num_mul (windowMinutes_of (get_prop rateLimit ''window_minutes'')) (Fin 60) \<noteq> PInf"
  shows "\<exists>p. time_percent w = Fin p \<and> 0 \<le> p \<and> p \<le> 100"
proof -
  let ?wm = "get_prop rateLimit ''window_minutes''"
  obtain r where r: "calculateResetTime (TimeValue n) recordTimestamp rateLimit = Inr r"
    using assms(1) by (auto simp: processWindow_def split: sum.splits)
  show ?thesis
  proof (cases "is_positive_number ?wm")
    case False
    then show ?thesis
      using assms(1) processWindow_invalid_window [OF r False] by auto
  next
    case True
    show ?thesis
    proof (cases "isOutdated r")
      case outdated: True
      then show ?thesis
        using assms(1) processWindow_outdated [OF r outdated] True by auto
    next
      case False
      obtain x where x: "num_mul (windowMinutes_of ?wm) (Fin 60) = Fin x" "0 < x"
        using windowSeconds_cases [OF True] assms(2) by blast
      have "\<not> nullish rateLimit"
        using r by (auto simp: calculateResetTime_def split: if_splits)
      then have "r = (case resolved_resetTime recordTimestamp rateLimit of
                        Some (TimeValue x) \<Rightarrow> resolved_reset (TimeValue n) (TimeValue x)
                      | _ \<Rightarrow> unresolved_reset recordTimestamp)"
        using r calculateResetTime_cases [of rateLimit "TimeValue n" recordTimestamp] by simp
      then obtain t where t: "r = resolved_reset (TimeValue n) (TimeValue t)"
        using False by (auto simp: unresolved_reset_def split: option.splits Date.splits)
      have s: "secondsUntilReset r = PInf \<or> (\<exists>y. secondsUntilReset r = Fin y \<and> 0 \<le> y)"
        using secondsUntilReset_range [of n t] t by simp
      from elapsed_fraction_range [OF x(2) s]
      obtain p where p: "timePercent_of (Fin x) False (secondsUntilReset r) = Fin p"
        "0 \<le> p" "p \<le> 100" by blast
      have "time_percent w = Math_max (Fin 0) (Math_min (Fin 100) (Fin p))"
        using assms(1) r False x(1) p(1) by (auto simp: processWindow_def Let_def)
      then show ?thesis
        using p(2,3) by auto
    qed
  qed
qed

text \<open>
  The engine never changes the used-percent: whatever the raw descriptor holds under
  \<^verbatim>\<open>used_percent\<close> is what the window reports.
\<close>

lemma used_percent_passed_through:
  "processWindow now ts rl = Inr w \<Longrightarrow> used_percent w = get_prop rl ''used_percent''"
  by (auto simp: processWindow_def Let_def split: sum.splits)

text \<open>
  The worked example of the specification: a record stamped 2025-01-01T00:00:00Z with
  \<^verbatim>\<open>resets_in_seconds = 3600\<close> and \<^verbatim>\<open>window_minutes = 60\<close>, evaluated half an hour
  later, resets at 01:00:00Z, is not outdated and is half way through its window.
\<close>

lemma half_way_example:
  "processWindow (TimeValue 1735691400000) (TimeValue 1735689600000)
     (Obj [(''used_percent'', Num (Fin 12)), (''resets_in_seconds'', Num (Fin 3600)),
           (''window_minutes'', Num (Fin 60))])
   = Inr \<lparr>used_percent = Num (Fin 12), time_percent = Fin 50,
           reset_time = TimeValue 1735693200000, outdated = False, window_minutes = Fin 60\<rparr>"
  by (simp add: normalizer_eval)

text \<open>
  The same record evaluated twenty minutes after its timestamp: a third of the window has
  elapsed, and the time-percent is the binary64 value 33.33333333333333 that the quotient
  and the product of line 237 round to, not 100 / 3.
\<close>

lemma one_third_example:
  "processWindow (TimeValue 1735690800000) (TimeValue 1735689600000)
     (Obj [(''used_percent'', Num (Fin 12)), (''resets_in_seconds'', Num (Fin 3600)),
           (''window_minutes'', Num (Fin 60))])
   = Inr \<lparr>used_percent = Num (Fin 12),
           time_percent = Fin (2345624805922133 / 70368744177664),
           reset_time = TimeValue 1735693200000, outdated = False, window_minutes = Fin 60\<rparr>"
  by (simp add: normalizer_eval d64_one_third d64_one_third_percent)

subsection \<open>Claims on the normalizer\<close>

text \<open>
  C1 (as the code has it). When neither \<^verbatim>\<open>resets_at\<close> nor \<^verbatim>\<open>resets_in_seconds\<close> is a
  number, the window's reset instant is the record's own timestamp and it is outdated.
  The window length is validated independently of the reset data: a positive numeric
  \<^verbatim>\<open>window_minutes\<close> is kept and the time-percent is then 100; only without one are
  both 0.
\<close>

theorem unresolved_window:
  assumes "\<not> nullish rateLimit"
      and "\<not> is_number_not_NaN (get_prop rateLimit ''resets_at'')"
      and "\<not> is_number_not_NaN (get_prop rateLimit ''resets_in_seconds'')"
  shows "\<exists>w. processWindow currentTime recordTimestamp rateLimit = Inr w
           \<and> reset_time w = recordTimestamp \<and> outdated w
           \<and> window_minutes w =
               (if is_positive_number (get_prop rateLimit ''window_minutes'')
                then the_number (get_prop rateLimit ''window_minutes'') else Fin 0)
           \<and> time_percent w =
               (if is_positive_number (get_prop rateLimit ''window_minutes'')
                then Fin 100 else Fin 0)"
proof -
  have "calculateResetTime currentTime recordTimestamp rateLimit
          = Inr (unresolved_reset recordTimestamp)"
    using assms resolved_None_iff [of recordTimestamp rateLimit]
    by (simp add: calculateResetTime_cases)
  moreover have "isOutdated (unresolved_reset recordTimestamp)"
    by (simp add: unresolved_reset_def)
  ultimately show ?thesis
    by (simp add: processWindow_outdated unresolved_reset_def windowMinutes_of_def)
qed

theorem unresolved_window_witness:
  "\<not> nullish (Obj [(''used_percent'', Num (Fin 10)), (''window_minutes'', Num (Fin 0))])
   \<and> (\<exists>w. processWindow (TimeValue 1735691400000) (TimeValue 1735689600000)
            (Obj [(''used_percent'', Num (Fin 10)), (''window_minutes'', Num (Fin 0))]) = Inr w
          \<and> reset_time w = TimeValue 1735689600000 \<and> outdated w
          \<and> window_minutes w = Fin 0 \<and> time_percent w = Fin 0)"
  using unresolved_window
          [of "Obj [(''used_percent'', Num (Fin 10)), (''window_minutes'', Num (Fin 0))]"
              "TimeValue 1735691400000" "TimeValue 1735689600000"]
  by (simp add: nullish_def num_gt_def rnd_def binary64_limit_def)

text \<open>
  C1 as stated fails: a descriptor with no reset data and \<^verbatim>\<open>window_minutes = 300\<close> is
  normalized to time-percent 100 and window-minutes 300, not to 0 and 0.
\<close>

theorem unresolved_window_counterexample:
  "\<not> is_number_not_NaN
       (get_prop (Obj [(''used_percent'', Num (Fin 10)), (''window_minutes'', Num (Fin 300))])
          ''resets_at'')
   \<and> \<not> is_number_not_NaN
       (get_prop (Obj [(''used_percent'', Num (Fin 10)), (''window_minutes'', Num (Fin 300))])
          ''resets_in_seconds'')
   \<and> processWindow (TimeValue 1735691400000) (TimeValue 1735689600000)
        (Obj [(''used_percent'', Num (Fin 10)), (''window_minutes'', Num (Fin 300))])
      = Inr \<lparr>used_percent = Num (Fin 10), time_percent = Fin 100,
              reset_time = TimeValue 1735689600000, outdated = True,
              window_minutes = Fin 300\<rparr>"
  by (simp add: normalizer_eval)

text \<open>
  C2 (as the code has it). When the reset instant resolves and lies strictly before the
  instant of evaluation, the window is outdated; its time-percent is 100 when
  \<^verbatim>\<open>window_minutes\<close> is a positive number and 0 otherwise, because the test of the
  window length comes first.
\<close>

theorem outdated_window:
  assumes "\<not> nullish rateLimit"
      and "resolved_resetTime recordTimestamp rateLimit = Some rt"
      and "date_lt rt currentTime"
  shows "\<exists>w. processWindow currentTime recordTimestamp rateLimit = Inr w
           \<and> reset_time w = rt \<and> outdated w
           \<and> time_percent w =
               (if is_positive_number (get_prop rateLimit ''window_minutes'')
                then Fin 100 else Fin 0)"
proof -
  obtain t where rt: "rt = TimeValue t"
    using assms(3) by (cases rt) (simp_all add: date_lt_def)
  have "calculateResetTime currentTime recordTimestamp rateLimit
          = Inr (resolved_reset currentTime rt)"
    using assms(1,2) rt by (simp add: calculateResetTime_cases)
  moreover have "isOutdated (resolved_reset currentTime rt)"
    using assms(3) by (simp add: resolved_reset_def)
  ultimately show ?thesis
    by (simp add: processWindow_outdated resolved_reset_def)
qed

theorem outdated_window_witness:
  "\<not> nullish (Obj [(''used_percent'', Num (Fin 12)), (''resets_in_seconds'', Num (Fin 3600)),
                   (''window_minutes'', Num (Fin 60))])
   \<and> resolved_resetTime (TimeValue 1735689600000)
        (Obj [(''used_percent'', Num (Fin 12)), (''resets_in_seconds'', Num (Fin 3600)),
              (''window_minutes'', Num (Fin 60))]) = Some (TimeValue 1735693200000)
   \<and> date_lt (TimeValue 1735693200000) (TimeValue 1735696800000)
   \<and> (\<exists>w. processWindow (TimeValue 1735696800000) (TimeValue 1735689600000)
            (Obj [(''used_percent'', Num (Fin 12)), (''resets_in_seconds'', Num (Fin 3600)),
                  (''window_minutes'', Num (Fin 60))]) = Inr w
          \<and> reset_time w = TimeValue 1735693200000 \<and> outdated w \<and> time_percent w = Fin 100)"
proof -
  let ?rl = "Obj [(''used_percent'', Num (Fin 12)), (''resets_in_seconds'', Num (Fin 3600)),
                  (''window_minutes'', Num (Fin 60))]"
  have 1: "\<not> nullish ?rl"
    by (simp add: nullish_def)
  have 2: "resolved_resetTime (TimeValue 1735689600000) ?rl = Some (TimeValue 1735693200000)"
    by (simp add: normalizer_eval)
  have 3: "date_lt (TimeValue 1735693200000) (TimeValue 1735696800000)"
    by (simp add: date_lt_def)
  show ?thesis
    using 1 2 3 outdated_window [OF 1 2 3] by (simp add: num_gt_def rnd_def binary64_limit_def)
qed

text \<open>
  C2 as stated fails: a window that reset an hour before the evaluation, with
  \<^verbatim>\<open>window_minutes = 0\<close>, is outdated with time-percent 0, not 100.
\<close>

theorem outdated_window_counterexample:
  "resolved_resetTime (TimeValue 1735689600000)
     (Obj [(''used_percent'', Num (Fin 10)), (''resets_at'', Num (Fin 1735693200)),
           (''window_minutes'', Num (Fin 0))]) = Some (TimeValue 1735693200000)
   \<and> date_lt (TimeValue 1735693200000) (TimeValue 1735696800000)
   \<and> processWindow (TimeValue 1735696800000) (TimeValue 1735689600000)
        (Obj [(''used_percent'', Num (Fin 10)), (''resets_at'', Num (Fin 1735693200)),
              (''window_minutes'', Num (Fin 0))])
      = Inr \<lparr>used_percent = Num (Fin 10), time_percent = Fin 0,
              reset_time = TimeValue 1735693200000, outdated = True, window_minutes = Fin 0\<rparr>"
  by (simp add: normalizer_eval)

text \<open>
  C5 (as the code has it). The field is chosen in a fixed order: \<^verbatim>\<open>resets_at\<close> whenever
  it is a number, else \<^verbatim>\<open>resets_in_seconds\<close> whenever that is a number. The instant is
  what the binary64 arithmetic of lines 21 and 23 makes of the chosen field: the field as
  parsed, times 1000, for the relative field added to the record's time value, each
  result rounded, the last one truncated to whole milliseconds. The chosen field gives
  the reset instant only if that instant is one a date can hold (at most 8.64e15 ms from
  the epoch) and, for the relative field, the record timestamp is a valid date; if not,
  resolution fails and the other field is not tried. With neither field numeric,
  resolution fails. A failed resolution reports the record timestamp.
\<close>

theorem reset_preference_order:
  assumes "\<not> nullish rateLimit"
  shows "\<exists>r. calculateResetTime currentTime recordTimestamp rateLimit = Inr r \<and>
    (get_prop rateLimit ''resets_at'' = Num (Fin a) \<longrightarrow>
       (if \<bar>d64 (d64 a * 1000)\<bar> \<le> 8640000000000000
        then resetTime r = TimeValue (trunc_toward_zero (d64 (d64 a * 1000)))
        else r = unresolved_reset recordTimestamp)) \<and>
    (get_prop rateLimit ''resets_at'' = Num PInf \<or> get_prop rateLimit ''resets_at'' = Num NInf
       \<longrightarrow> r = unresolved_reset recordTimestamp) \<and>
    (\<not> is_number_not_NaN (get_prop rateLimit ''resets_at'') \<and>
     get_prop rateLimit ''resets_in_seconds'' = Num (Fin s) \<and>
     recordTimestamp = TimeValue t \<and> \<bar>t\<bar> \<le> 8640000000000000 \<longrightarrow>
       (if \<bar>d64 (of_int t + d64 (d64 s * 1000))\<bar> \<le> 8640000000000000
        then resetTime r = TimeValue (trunc_toward_zero (d64 (of_int t + d64 (d64 s * 1000))))
        else r = unresolved_reset recordTimestamp)) \<and>
    (\<not> is_number_not_NaN (get_prop rateLimit ''resets_at'') \<and>
     is_number_not_NaN (get_prop rateLimit ''resets_in_seconds'') \<and>
     recordTimestamp = InvalidDate \<longrightarrow>
       r = unresolved_reset recordTimestamp) \<and>
    (\<not> is_number_not_NaN (get_prop rateLimit ''resets_at'') \<and>
     (get_prop rateLimit ''resets_in_seconds'' = Num PInf
      \<or> get_prop rateLimit ''resets_in_seconds'' = Num NInf) \<longrightarrow>
       r = unresolved_reset recordTimestamp) \<and>
    (\<not> is_number_not_NaN (get_prop rateLimit ''resets_at'') \<and>
     \<not> is_number_not_NaN (get_prop rateLimit ''resets_in_seconds'') \<longrightarrow>
       r = unresolved_reset recordTimestamp)"
proof -
  let ?r = "case resolved_resetTime recordTimestamp rateLimit of
              Some (TimeValue x) \<Rightarrow> resolved_reset currentTime (TimeValue x)
            | _ \<Rightarrow> unresolved_reset recordTimestamp"
  have eq: "calculateResetTime currentTime recordTimestamp rateLimit = Inr ?r"
    using assms(1) by (rule calculateResetTime_cases)
  have 1: "if \<bar>d64 (d64 a * 1000)\<bar> \<le> 8640000000000000
           then resetTime ?r = TimeValue (trunc_toward_zero (d64 (d64 a * 1000)))
           else ?r = unresolved_reset recordTimestamp"
    if "get_prop rateLimit ''resets_at'' = Num (Fin a)"
    using resolved_resets_at [OF that, of recordTimestamp]
    by (simp add: instant_of_def resolved_reset_def)
  have 2: "?r = unresolved_reset recordTimestamp"
    if "get_prop rateLimit ''resets_at'' = Num PInf \<or> get_prop rateLimit ''resets_at'' = Num NInf"
    using resolved_infinite [OF that, of recordTimestamp] by simp
  have 3: "if \<bar>d64 (of_int t + d64 (d64 s * 1000))\<bar> \<le> 8640000000000000
           then resetTime ?r = TimeValue (trunc_toward_zero (d64 (of_int t + d64 (d64 s * 1000))))
           else ?r = unresolved_reset recordTimestamp"
    if "\<not> is_number_not_NaN (get_prop rateLimit ''resets_at'')"
       "get_prop rateLimit ''resets_in_seconds'' = Num (Fin s)"
       "recordTimestamp = TimeValue t" "\<bar>t\<bar> \<le> 8640000000000000"
    using resolved_resets_in_seconds [OF that(1,2,4)] that(3)
    by (simp add: instant_of_def resolved_reset_def)
  have 4: "?r = unresolved_reset recordTimestamp"
    if "\<not> is_number_not_NaN (get_prop rateLimit ''resets_at'')"
       "is_number_not_NaN (get_prop rateLimit ''resets_in_seconds'')"
       "recordTimestamp = InvalidDate"
    using resolved_invalid_record [OF that(1,2)] that(3) by simp
  have 5: "?r = unresolved_reset recordTimestamp"
    if "\<not> is_number_not_NaN (get_prop rateLimit ''resets_at'')"
       "get_prop rateLimit ''resets_in_seconds'' = Num PInf
        \<or> get_prop rateLimit ''resets_in_seconds'' = Num NInf"
    using resolved_infinite_offset [OF that, of recordTimestamp] by simp
  have 6: "?r = unresolved_reset recordTimestamp"
    if "\<not> is_number_not_NaN (get_prop rateLimit ''resets_at'')"
       "\<not> is_number_not_NaN (get_prop rateLimit ''resets_in_seconds'')"
    using that resolved_None_iff [of recordTimestamp rateLimit] by simp
  show ?thesis
    using eq 1 2 3 4 5 6 by blast
qed

text \<open>
  The branches at concrete descriptors: both fields present (the absolute one wins); an
  absolute one that is not a binary64 value, \<^verbatim>\<open>1735693200.001\<close>, whose product with 1000
  rounds to 1735693200001; only the relative one, \<^verbatim>\<open>0.3\<close>, whose product rounds to 300;
  neither; an infinite absolute one beside a usable relative one; a relative one with a
  record timestamp that is not a date.
\<close>

theorem reset_preference_order_witness:
  "(\<exists>r. calculateResetTime (TimeValue 1735691400000) (TimeValue 1735689600000)
           (Obj [(''resets_at'', Num (Fin 1735693200)), (''resets_in_seconds'', Num (Fin 60))])
         = Inr r \<and> resetTime r = TimeValue 1735693200000)
   \<and> (\<exists>r. calculateResetTime (TimeValue 1735691400000) (TimeValue 1735689600000)
           (Obj [(''resets_at'', Num (Fin (1735693200001 / 1000)))])
         = Inr r \<and> resetTime r = TimeValue 1735693200001)
   \<and> (\<exists>r. calculateResetTime (TimeValue 1735691400000) (TimeValue 1735689600000)
           (Obj [(''resets_in_seconds'', Num (Fin (3 / 10)))])
         = Inr r \<and> resetTime r = TimeValue 1735689600300)
   \<and> (\<exists>r. calculateResetTime (TimeValue 1735691400000) (TimeValue 1735689600000)
           (Obj [(''used_percent'', Num (Fin 10))])
         = Inr r \<and> r = unresolved_reset (TimeValue 1735689600000))
   \<and> (\<exists>r. calculateResetTime (TimeValue 1735691400000) (TimeValue 1735689600000)
           (Obj [(''resets_at'', Num PInf), (''resets_in_seconds'', Num (Fin 60))])
         = Inr r \<and> r = unresolved_reset (TimeValue 1735689600000))
   \<and> (\<exists>r. calculateResetTime (TimeValue 1735691400000) InvalidDate
           (Obj [(''resets_in_seconds'', Num (Fin 60))])
         = Inr r \<and> r = unresolved_reset InvalidDate)"
proof -
  have a: "d64 (d64 (1735693200001 / 1000) * 1000) = 1735693200001"
    by (simp only: d64_1735693200_001 d64_1735693200_001_ms)
  have s: "d64 (d64 (3 / 10) * 1000) = 300"
    by (simp only: d64_three_tenths d64_three_tenths_ms)
  show ?thesis
    using reset_preference_order
            [where rateLimit = "Obj [(''resets_at'', Num (Fin 1735693200)),
                                     (''resets_in_seconds'', Num (Fin 60))]"
               and recordTimestamp = "TimeValue 1735689600000"
               and currentTime = "TimeValue 1735691400000" and a = 1735693200]
          reset_preference_order
            [where rateLimit = "Obj [(''resets_at'', Num (Fin (1735693200001 / 1000)))]"
               and recordTimestamp = "TimeValue 1735689600000"
               and currentTime = "TimeValue 1735691400000" and a = "1735693200001 / 1000"]
          reset_preference_order
            [where rateLimit = "Obj [(''resets_in_seconds'', Num (Fin (3 / 10)))]"
               and recordTimestamp = "TimeValue 1735689600000"
               and currentTime = "TimeValue 1735691400000" and s = "3 / 10"
               and t = 1735689600000]
          reset_preference_order
            [where rateLimit = "Obj [(''used_percent'', Num (Fin 10))]"
               and recordTimestamp = "TimeValue 1735689600000"
               and currentTime = "TimeValue 1735691400000"]
          reset_preference_order
            [where rateLimit = "Obj [(''resets_at'', Num PInf),
                                     (''resets_in_seconds'', Num (Fin 60))]"
               and recordTimestamp = "TimeValue 1735689600000"
               and currentTime = "TimeValue 1735691400000"]
          reset_preference_order
            [where rateLimit = "Obj [(''resets_in_seconds'', Num (Fin 60))]"
               and recordTimestamp = InvalidDate
               and currentTime = "TimeValue 1735691400000"]
    by (simp add: nullish_def Number_isNaN_def trunc_toward_zero_def a s)
qed

text \<open>
  C5 as stated fails: \<^verbatim>\<open>resets_at = 1e16\<close> is present and numeric, yet the reset
  instant is neither taken from it nor from the numeric \<^verbatim>\<open>resets_in_seconds\<close> beside
  it. The date built from it is invalid, and the resolution fails.
\<close>

theorem reset_preference_order_counterexample:
  "is_number_not_NaN
     (get_prop (Obj [(''resets_at'', Num (Fin 10000000000000000)),
                     (''resets_in_seconds'', Num (Fin 60))]) ''resets_at'')
   \<and> calculateResetTime (TimeValue 1735691400000) (TimeValue 1735689600000)
        (Obj [(''resets_at'', Num (Fin 10000000000000000)),
              (''resets_in_seconds'', Num (Fin 60))])
      = Inr \<lparr>resetTime = TimeValue 1735689600000, isOutdated = True,
              secondsUntilReset = Fin 0\<rparr>"
  by (simp add: normalizer_eval d64_1e16 d64_1e19)

text \<open>
  C6. A \<^verbatim>\<open>window_minutes\<close> that is absent, not a number, zero or negative gives
  window-minutes 0 and time-percent 0, whatever the reset data; a positive number is kept
  as it is.
\<close>

theorem window_minutes_validated:
  assumes "\<not> nullish rateLimit"
  shows "\<exists>w. processWindow currentTime recordTimestamp rateLimit = Inr w
           \<and> (if is_positive_number (get_prop rateLimit ''window_minutes'')
              then window_minutes w = the_number (get_prop rateLimit ''window_minutes'')
              else window_minutes w = Fin 0 \<and> time_percent w = Fin 0)"
proof -
  obtain r where r: "calculateResetTime currentTime recordTimestamp rateLimit = Inr r"
    using calculateResetTime_total [OF assms] by blast
  show ?thesis
  proof (cases "is_positive_number (get_prop rateLimit ''window_minutes'')")
    case True
    then show ?thesis
      using r by (simp add: processWindow_def Let_def windowMinutes_of_def)
  next
    case False
    then show ?thesis
      using r by (simp add: processWindow_invalid_window)
  qed
qed

text \<open>A negative length with live reset data, and a positive one.\<close>

theorem window_minutes_validated_witness:
  "(\<exists>w. processWindow (TimeValue 1735691400000) (TimeValue 1735689600000)
           (Obj [(''resets_at'', Num (Fin 1735693200)), (''window_minutes'', Num (Fin (- 5)))])
         = Inr w \<and> window_minutes w = Fin 0 \<and> time_percent w = Fin 0)
   \<and> (\<exists>w. processWindow (TimeValue 1735691400000) (TimeValue 1735689600000)
           (Obj [(''resets_at'', Num (Fin 1735693200)), (''window_minutes'', Num (Fin 300))])
         = Inr w \<and> window_minutes w = Fin 300)"
  using window_minutes_validated
          [of "Obj [(''resets_at'', Num (Fin 1735693200)), (''window_minutes'', Num (Fin (- 5)))]"
              "TimeValue 1735691400000" "TimeValue 1735689600000"]
        window_minutes_validated
          [of "Obj [(''resets_at'', Num (Fin 1735693200)), (''window_minutes'', Num (Fin 300))]"
              "TimeValue 1735691400000" "TimeValue 1735689600000"]
  by (simp add: nullish_def num_gt_def rnd_def binary64_limit_def)

text \<open>
  C7 at the input where the code leaves the interval. A \<^verbatim>\<open>window_minutes\<close> written
  \<^verbatim>\<open>1e999\<close> in the log parses to \<^verbatim>\<open>Infinity\<close>, which passes the test for a positive
  number. With a reset still ahead, the elapsed fraction is \<^verbatim>\<open>Infinity / Infinity\<close>,
  and the clamp of lines 242 and 270 lets the NaN through: the time-percent is NaN, which
  is not in [0,100]. The used-percent is passed through.
\<close>

theorem time_percent_NaN_on_infinite_window:
  "processWindow (TimeValue 1735691400000) (TimeValue 1735689600000)
     (Obj [(''used_percent'', Num (Fin 5)), (''resets_at'', Num (Fin 1735693200)),
           (''window_minutes'', Num PInf)])
   = Inr \<lparr>used_percent = Num (Fin 5), time_percent = NaN,
           reset_time = TimeValue 1735693200000, outdated = False, window_minutes = PInf\<rparr>"
  by (simp add: normalizer_eval)

text \<open>
  C8 (as the code has it). Two descriptors, one with an absolute \<^verbatim>\<open>resets_at\<close> of \<open>a\<close>
  seconds, the other with no numeric \<^verbatim>\<open>resets_at\<close> and an offset \<open>s\<close> that is equivalent
  to it from the same record timestamp \<open>t\<close> (in milliseconds), that is \<open>a - t / 1000\<close>
  exactly or to the nearest second. If the absolute instant lies at least a second inside
  the range of a date, both descriptors resolve, each window reports its resolved
  instant, the first within 2 ms of \<open>a * 1000\<close> and the second within 4 ms of
  \<open>t + s * 1000\<close>, and the two instants are at most 1000 ms apart. They need not be
  equal: each is the result of rounded arithmetic.
\<close>

theorem absolute_and_relative_agree:
  assumes "\<bar>t\<bar> \<le> 8640000000000000"
      and "\<not> nullish absolute" and "\<not> nullish relative"
      and "get_prop absolute ''resets_at'' = Num (Fin a)"
      and "\<not> is_number_not_NaN (get_prop relative ''resets_at'')"
      and "get_prop relative ''resets_in_seconds'' = Num (Fin s)"
      and "\<bar>s - (a - of_int t / 1000)\<bar> \<le> 1 / 2"
      and "\<bar>a * 1000\<bar> \<le> 8640000000000000 - 1000"
  shows "\<exists>w1 w2 t1 t2.
           processWindow currentTime (TimeValue t) absolute = Inr w1
           \<and> processWindow currentTime (TimeValue t) relative = Inr w2
           \<and> resolved_resetTime (TimeValue t) absolute = Some (TimeValue t1)
           \<and> resolved_resetTime (TimeValue t) relative = Some (TimeValue t2)
           \<and> reset_time w1 = TimeValue t1 \<and> reset_time w2 = TimeValue t2
           \<and> \<bar>of_int t1 - a * 1000\<bar> \<le> 2
           \<and> \<bar>of_int t2 - (of_int t + s * 1000)\<bar> \<le> 4
           \<and> \<bar>t1 - t2\<bar> \<le> 1000"
proof -
  define i1 where "i1 = d64 (d64 a * 1000)"
  define i2 where "i2 = d64 (of_int t + d64 (d64 s * 1000))"
  have t: "\<bar>real_of_int t\<bar> \<le> 8640000000000000"
    using assms(1) by linarith
  have a: "\<bar>a\<bar> \<le> 8639999999999"
    using assms(8) by linarith
  have s: "\<bar>s\<bar> \<le> 17280000000000"
    using assms(7) a t by linarith
  text \<open>The absolute instant is within 1 ms of \<open>a * 1000\<close>.\<close>
  have "\<bar>a\<bar> * 2 ^ 10 < 2 ^ 53"
    using a by simp
  then have "\<bar>d64 a - a\<bar> \<le> 1 / 2 ^ 10 / 2"
    by (rule d64_err_fine) simp
  then have "1000 * \<bar>d64 a - a\<bar> \<le> 1 / 2"
    by simp
  then have a_err: "\<bar>d64 a * 1000 - a * 1000\<bar> \<le> 1 / 2"
    by (simp only: scaled_err)
  have "\<bar>d64 a * 1000\<bar> < 9007199254740992"
    using a_err assms(8) by linarith
  then have "\<bar>d64 a * 1000\<bar> < 2 ^ (53 + 0)"
    by simp
  then have "\<bar>i1 - d64 a * 1000\<bar> \<le> 2 ^ 0 / 2"
    unfolding i1_def by (rule d64_err)
  then have "\<bar>i1 - d64 a * 1000\<bar> \<le> 1 / 2"
    by simp
  then have i1: "\<bar>i1 - a * 1000\<bar> \<le> 1"
    using a_err by linarith
  text \<open>The relative instant is within 3 ms of \<open>t + s * 1000\<close>.\<close>
  have "\<bar>s\<bar> * 2 ^ 9 < 2 ^ 53"
    using s by simp
  then have "\<bar>d64 s - s\<bar> \<le> 1 / 2 ^ 9 / 2"
    by (rule d64_err_fine) simp
  then have "1000 * \<bar>d64 s - s\<bar> \<le> 1"
    by simp
  then have s_err: "\<bar>d64 s * 1000 - s * 1000\<bar> \<le> 1"
    by (simp only: scaled_err)
  have "\<bar>d64 s * 1000\<bar> < 18014398509481984"
    using s_err s by linarith
  then have "\<bar>d64 s * 1000\<bar> < 2 ^ (53 + 1)"
    by simp
  then have "\<bar>d64 (d64 s * 1000) - d64 s * 1000\<bar> \<le> 2 ^ 1 / 2"
    by (rule d64_err)
  then have "\<bar>d64 (d64 s * 1000) - d64 s * 1000\<bar> \<le> 1"
    by simp
  then have m_err: "\<bar>d64 (d64 s * 1000) - s * 1000\<bar> \<le> 2"
    using s_err by linarith
  have "(of_int t + s * 1000) - a * 1000 = (s - (a - of_int t / 1000)) * 1000"
    by simp
  then have "\<bar>(of_int t + s * 1000) - a * 1000\<bar> = \<bar>s - (a - of_int t / 1000)\<bar> * 1000"
    by (simp only: abs_mult)
  then have near: "\<bar>(of_int t + s * 1000) - a * 1000\<bar> \<le> 500"
    using assms(7) by linarith
  have "\<bar>of_int t + d64 (d64 s * 1000)\<bar> < 9007199254740992"
    using m_err near assms(8) by linarith
  then have "\<bar>of_int t + d64 (d64 s * 1000)\<bar> < 2 ^ (53 + 0)"
    by simp
  then have "\<bar>i2 - (of_int t + d64 (d64 s * 1000))\<bar> \<le> 2 ^ 0 / 2"
    unfolding i2_def by (rule d64_err)
  then have "\<bar>i2 - (of_int t + d64 (d64 s * 1000))\<bar> \<le> 1 / 2"
    by simp
  then have i2_err: "\<bar>i2 - (of_int t + s * 1000)\<bar> \<le> 5 / 2"
    using m_err by linarith
  then have i2: "\<bar>i2 - a * 1000\<bar> \<le> 503"
    using near by linarith
  text \<open>Both are instants a date can hold.\<close>
  have v1: "\<bar>i1\<bar> \<le> 8640000000000000"
    using i1 assms(8) by linarith
  have v2: "\<bar>i2\<bar> \<le> 8640000000000000"
    using i2 assms(8) by linarith
  have "resolved_resetTime (TimeValue t) absolute = Some (TimeValue (trunc_toward_zero i1))"
    using resolved_resets_at [OF assms(4), of "TimeValue t"] v1
    by (simp add: instant_of_def i1_def)
  moreover from this
  have "calculateResetTime currentTime (TimeValue t) absolute
          = Inr (resolved_reset currentTime (TimeValue (trunc_toward_zero i1)))"
    using assms(2) by (simp add: calculateResetTime_cases)
  moreover
  have "resolved_resetTime (TimeValue t) relative = Some (TimeValue (trunc_toward_zero i2))"
    using resolved_resets_in_seconds [OF assms(5,6,1)] v2
    by (simp add: instant_of_def i2_def)
  moreover from this
  have "calculateResetTime currentTime (TimeValue t) relative
          = Inr (resolved_reset currentTime (TimeValue (trunc_toward_zero i2)))"
    using assms(3) by (simp add: calculateResetTime_cases)
  moreover have "\<bar>of_int (trunc_toward_zero i1) - a * 1000\<bar> \<le> 2"
    using i1 trunc_err [of i1] by linarith
  moreover have "\<bar>of_int (trunc_toward_zero i2) - (of_int t + s * 1000)\<bar> \<le> 4"
    using i2_err trunc_err [of i2] by linarith
  moreover have "\<bar>trunc_toward_zero i1 - trunc_toward_zero i2\<bar> \<le> 1000"
    using i1 i2 by (intro trunc_within) linarith
  ultimately show ?thesis
    by (simp add: processWindow_def Let_def resolved_reset_def)
qed

text \<open>
  A record stamped 2025-01-01T00:00:00.500Z: \<^verbatim>\<open>resets_at = 1735693200\<close> and
  \<^verbatim>\<open>resets_in_seconds = 3599.5\<close> both resolve to 01:00:00Z.
\<close>

theorem absolute_and_relative_agree_witness:
  "\<exists>w1 w2 t1 t2.
      processWindow (TimeValue 1735691400000) (TimeValue 1735689600500)
        (Obj [(''used_percent'', Num (Fin 5)), (''resets_at'', Num (Fin 1735693200)),
              (''window_minutes'', Num (Fin 300))]) = Inr w1
    \<and> processWindow (TimeValue 1735691400000) (TimeValue 1735689600500)
        (Obj [(''used_percent'', Num (Fin 5)), (''resets_in_seconds'', Num (Fin (7199 / 2))),
              (''window_minutes'', Num (Fin 300))]) = Inr w2
    \<and> resolved_resetTime (TimeValue 1735689600500)
        (Obj [(''used_percent'', Num (Fin 5)), (''resets_at'', Num (Fin 1735693200)),
              (''window_minutes'', Num (Fin 300))]) = Some (TimeValue t1)
    \<and> resolved_resetTime (TimeValue 1735689600500)
        (Obj [(''used_percent'', Num (Fin 5)), (''resets_in_seconds'', Num (Fin (7199 / 2))),
              (''window_minutes'', Num (Fin 300))]) = Some (TimeValue t2)
    \<and> reset_time w1 = TimeValue t1 \<and> reset_time w2 = TimeValue t2
    \<and> \<bar>real_of_int t1 - 1735693200 * 1000\<bar> \<le> 2
    \<and> \<bar>real_of_int t2 - (real_of_int 1735689600500 + 7199 / 2 * 1000)\<bar> \<le> 4
    \<and> \<bar>t1 - t2\<bar> \<le> 1000"
  using absolute_and_relative_agree
          [where t = 1735689600500
             and absolute = "Obj [(''used_percent'', Num (Fin 5)),
                                  (''resets_at'', Num (Fin 1735693200)),
                                  (''window_minutes'', Num (Fin 300))]"
             and relative = "Obj [(''used_percent'', Num (Fin 5)),
                                  (''resets_in_seconds'', Num (Fin (7199 / 2))),
                                  (''window_minutes'', Num (Fin 300))]"
             and a = 1735693200 and s = "7199 / 2"
             and currentTime = "TimeValue 1735691400000"]
  by (simp add: nullish_def)

text \<open>
  C8 as stated fails at the end of the range of a date. With \<^verbatim>\<open>resets_at = 8640000000000\<close>
  the absolute descriptor resolves to the last instant a date can hold. For a record
  stamped -7999999999999957 ms the equivalent offset is 16639999999999.957 s; its product
  with 1000 rounds up to 16639999999999958, the sum is one millisecond past the range,
  the date is invalid, and the window reports the record timestamp, outdated.
\<close>

theorem absolute_and_relative_agree_counterexample:
  "16639999999999957 / 1000 = 8640000000000 - real_of_int (- 7999999999999957) / 1000
   \<and> processWindow (TimeValue 1735691400000) (TimeValue (- 7999999999999957))
        (Obj [(''used_percent'', Num (Fin 5)), (''resets_at'', Num (Fin 8640000000000)),
              (''window_minutes'', Num (Fin 300))])
      = Inr \<lparr>used_percent = Num (Fin 5), time_percent = Fin 0,
              reset_time = TimeValue 8640000000000000, outdated = False,
              window_minutes = Fin 300\<rparr>
   \<and> processWindow (TimeValue 1735691400000) (TimeValue (- 7999999999999957))
        (Obj [(''used_percent'', Num (Fin 5)),
              (''resets_in_seconds'', Num (Fin (16639999999999957 / 1000))),
              (''window_minutes'', Num (Fin 300))])
      = Inr \<lparr>used_percent = Num (Fin 5), time_percent = Fin 100,
              reset_time = TimeValue (- 7999999999999957), outdated = True,
              window_minutes = Fin 300\<rparr>"
  by (simp add: normalizer_eval d64_16639999999999_957 d64_16639999999999_957_ms)

text \<open>
  Inside the range the two instants can differ, by a millisecond here: for a record stamped
  -8000000000000000 ms, \<^verbatim>\<open>resets_at = 1735693200.0009765625\<close> gives 1735693200000 and the
  equivalent \<^verbatim>\<open>resets_in_seconds = 8001735693200.0009765625\<close> gives 1735693200001.
\<close>

lemma absolute_and_relative_one_millisecond_apart:
  "8193777349836801 / 1024 = 1777349836801 / 1024 - real_of_int (- 8000000000000000) / 1000
   \<and> resolved_resetTime (TimeValue (- 8000000000000000))
        (Obj [(''resets_at'', Num (Fin (1777349836801 / 1024)))])
      = Some (TimeValue 1735693200000)
   \<and> resolved_resetTime (TimeValue (- 8000000000000000))
        (Obj [(''resets_in_seconds'', Num (Fin (8193777349836801 / 1024)))])
      = Some (TimeValue 1735693200001)"
  by (simp add: normalizer_eval d64_1735693200_1024th d64_1735693200_1024th_ms
        d64_8001735693200_1024th d64_8001735693200_1024th_ms)

section \<open>Properties of the reader\<close>

text \<open>The definitions that evaluate the reader on the example logs.\<close>

lemmas reader_eval =
  parseSessionFile_def file_lines_def trim_truthy_def is_whitespace_def scan_line_def
  is_token_count_def payload_type_def record_timestamp_of_def nullish_def date_gt_def
  num_gt_def log_host_def example_JSON_parse_def example_Date_parse_def
  line_bad_timestamp_def line_first_def line_second_def line_older_def line_session_meta_def
  record_bad_timestamp_def record_first_def record_second_def record_older_def

subsection \<open>The loop as a fold over the candidates\<close>

lemma scan_line_newer:
  "scan_line h latest line =
     (case candidate h line of None \<Rightarrow> latest | Some c \<Rightarrow> newer latest c)"
  by (simp add: scan_line_def candidate_def newer_def split: option.splits sum.splits)

lemma scan_lines_foldl:
  "scan_lines h latest lines = foldl newer latest (List.map_filter (candidate h) lines)"
proof (induction lines arbitrary: latest)
  case Nil
  show ?case by (simp add: List.map_filter_simps)
next
  case (Cons line lines)
  show ?case
    by (cases "candidate h line") (simp_all add: Cons.IH scan_line_newer List.map_filter_simps)
qed

lemma parseSessionFile_foldl:
  assumes "readFile h filePath = Some content"
  shows "parseSessionFile h filePath = map_option fst (foldl newer None (candidates h content))"
  using assms by (simp add: parseSessionFile_def scan_lines_foldl candidates_def)

text \<open>A line that does not parse as JSON leaves the loop state as it is: it is skipped.\<close>

lemma malformed_line_skipped:
  "JSON_parse h line = None \<Longrightarrow> scan_line h latest line = latest"
  by (simp add: scan_line_def)

lemma malformed_line_no_effect:
  assumes "JSON_parse h line = None"
  shows "scan_lines h latest (before @ line # after) = scan_lines h latest (before @ after)"
proof -
  have "candidate h line = None"
    using assms by (simp add: candidate_def)
  then show ?thesis
    by (simp add: scan_lines_foldl List.map_filter_def)
qed

text \<open>A file with no candidate yields no record; it is not an error.\<close>

lemma no_candidate_no_record:
  assumes "readFile h filePath = Some content" and "candidates h content = []"
  shows "parseSessionFile h filePath = None"
  using assms by (simp add: parseSessionFile_foldl)

subsection \<open>With valid timestamps, the first of the most recent records\<close>

lemma date_gt_valid [simp]: "date_gt (TimeValue a) (TimeValue b) \<longleftrightarrow> b < a"
  by (simp add: date_gt_def num_gt_def)

lemma date_lt_valid [simp]: "date_lt (TimeValue a) (TimeValue b) \<longleftrightarrow> a < b"
  by (simp add: date_lt_def)

lemma valid_date: "d \<noteq> InvalidDate \<longleftrightarrow> (\<exists>t. d = TimeValue t)"
  by (cases d) simp_all

lemma foldl_newer_first_latest:
  assumes "cs \<noteq> []" and "\<forall>c \<in> set cs. snd c \<noteq> InvalidDate"
  shows "\<exists>c. foldl newer None cs = Some c \<and> first_latest cs c"
  using assms
proof (induction cs rule: rev_nonempty_induct)
  case (single x)
  have "first_latest [x] x"
    unfolding first_latest_def by (rule exI [of _ "[]"], rule exI [of _ "[]"]) simp
  then show ?case by (simp add: newer_def)
next
  case (snoc x cs)
  then obtain c where c: "foldl newer None cs = Some c" and fl: "first_latest cs c"
    by auto
  from fl obtain before after where split: "cs = before @ c # after"
    and before: "\<forall>p \<in> set before. date_lt (snd p) (snd c)"
    and after: "\<forall>q \<in> set after. \<not> date_gt (snd q) (snd c)"
    unfolding first_latest_def by blast
  obtain tx where tx: "snd x = TimeValue tx"
    using snoc.prems by (auto simp: valid_date)
  obtain tc where tc: "snd c = TimeValue tc"
    using snoc.prems split by (auto simp: valid_date)
  have valid: "\<And>p. p \<in> set cs \<Longrightarrow> \<exists>t. snd p = TimeValue t"
    using snoc.prems by (auto simp: valid_date)
  show ?case
  proof (cases "date_gt (snd x) (snd c)")
    case True
    have "date_lt (snd p) (snd x)" if mem: "p \<in> set cs" for p
    proof -
      obtain tp where tp: "snd p = TimeValue tp"
        using valid [OF mem] by blast
      have "tp \<le> tc"
        using mem split before after tp tc by (auto simp: not_less dest: bspec)
      then show ?thesis
        using True tp tx tc by simp
    qed
    then have "first_latest (cs @ [x]) x"
      unfolding first_latest_def by (intro exI [of _ cs] exI [of _ "[]"]) simp
    moreover have "foldl newer None (cs @ [x]) = Some x"
      using c True by (cases c) (simp add: newer_def)
    ultimately show ?thesis by blast
  next
    case False
    have "first_latest (cs @ [x]) c"
      unfolding first_latest_def
      using split before after False
      by (intro exI [of _ before] exI [of _ "after @ [x]"]) auto
    moreover have "foldl newer None (cs @ [x]) = Some c"
      using c False by (cases c) (simp add: newer_def)
    ultimately show ?thesis by blast
  qed
qed

text \<open>
  When every candidate of a file has a valid timestamp, the reader returns the most recent
  of them, and the earliest in the file of those that share that timestamp.
\<close>

lemma reader_first_latest:
  assumes "readFile h filePath = Some content"
      and "candidates h content \<noteq> []"
      and "\<forall>c \<in> set (candidates h content). snd c \<noteq> InvalidDate"
  shows "\<exists>c. first_latest (candidates h content) c \<and> parseSessionFile h filePath = Some (fst c)"
  using foldl_newer_first_latest [OF assms(2,3)] assms(1)
  by (auto simp: parseSessionFile_foldl)

subsection \<open>Claims on the reader\<close>

text \<open>
  C3 at the input where the code departs from it. The log holds a token-count event whose
  timestamp \<^verbatim>\<open>"?"\<close> is not a date, then one stamped 2025-01-01T00:00:00Z. Line 58 takes
  the first event because nothing is held yet, and then compares every later timestamp
  with an invalid date, which is never less: the reader returns the event with the
  unparseable timestamp, not the one with the greatest timestamp.
\<close>

theorem unparseable_timestamp_returned:
  "parseSessionFile (log_host (line_bad_timestamp @ [CHR 0x0A] @ line_first)) ''/log''
     = Some record_bad_timestamp"
  by (simp add: reader_eval)

text \<open>
  C10 at the input where the code departs from it: the same defect. Two events share the
  greatest timestamp of the file, and an event with an unparseable timestamp precedes
  them; the reader returns that one, not the earlier of the two.
\<close>

theorem unparseable_timestamp_hides_tie:
  "parseSessionFile
     (log_host (line_bad_timestamp @ [CHR 0x0A] @ line_first @ [CHR 0x0A] @ line_second))
     ''/log''
     = Some record_bad_timestamp"
  by (simp add: reader_eval)

text \<open>Without the unparseable line the tie goes to the earlier event.\<close>

lemma tie_goes_to_earlier:
  "parseSessionFile (log_host (line_first @ [CHR 0x0A] @ line_second)) ''/log''
     = Some record_first"
  by (simp add: reader_eval)


section \<open>Properties of the resolver\<close>

subsection \<open>The two scans\<close>






subsection \<open>The candidate lists\<close>


















subsection \<open>The example session tree\<close>







lemma example_parse_b: "parseSessionFile sessions_host rollout_b = Some record_first"
  by (simp add: reader_eval sessions_host_def rollout_a_def rollout_b_def rollout_c_def)



subsection \<open>Claims on the resolver\<close>







end
